theory Spec2Isabelle
  imports Main
begin

section \<open>Exceptions and result values\<close>

text \<open>
  Every raise of the source is a value: a function that may raise returns
  \<open>exn + 'a\<close>, with \<open>Inl\<close> the exception. \<open>TimestampParseException\<close> is the
  library's own exception class; its \<open>value\<close> is either a message string or the
  \<open>ValueError\<close> it wraps. The other constructors are the built-in exceptions that
  the code can let escape. Assertions are taken as enabled (the interpreter's default).
\<close>

datatype exn =
    ValueError
  | OverflowError
  | TypeError
  | AssertionError
  | TimestampParseException tpe_value
and tpe_value =
    Text string
  | Wrapped exn

section \<open>The two time shapes\<close>

text \<open>
  \<open>time.struct_time\<close> is a plain 9-tuple: nothing is checked when it is built, so
  every field is an arbitrary integer.
\<close>

record struct_time =
  tm_year :: int
  tm_mon :: int
  tm_mday :: int
  tm_hour :: int
  tm_min :: int
  tm_sec :: int
  tm_wday :: int
  tm_yday :: int
  tm_isdst :: int

text \<open>A naive \<open>datetime.datetime\<close> object (no tzinfo).\<close>

record datetime_t =
  dt_year :: int
  dt_month :: int
  dt_day :: int
  dt_hour :: int
  dt_minute :: int
  dt_second :: int
  dt_microsecond :: int

text \<open>The argument type \<open>Union[time.struct_time, datetime.datetime]\<close>.\<close>

datatype timeval = StructTime struct_time | DateTime datetime_t

section \<open>The calendar of the \<open>datetime\<close> module\<close>

text \<open>
  The proleptic Gregorian calendar as the standard library computes it
  (\<open>_is_leap\<close>, \<open>_days_before_year\<close>, \<open>_days_in_month\<close>, \<open>_days_before_month\<close>,
  \<open>_ymd2ord\<close>). Python's floor division and remainder agree with HOL's
  \<open>div\<close> and \<open>mod\<close> on integers for the positive divisors used here.
\<close>

definition MINYEAR :: int where "MINYEAR = 1"
definition MAXYEAR :: int where "MAXYEAR = 9999"

definition is_leap :: "int \<Rightarrow> bool" where
  "is_leap y = (y mod 4 = 0 \<and> (y mod 100 \<noteq> 0 \<or> y mod 400 = 0))"

definition days_before_year :: "int \<Rightarrow> int" where
  "days_before_year year =
     (let y = year - 1 in y * 365 + y div 4 - y div 100 + y div 400)"

definition DAYS_IN_MONTH :: "int list" where
  "DAYS_IN_MONTH = [-1, 31, 28, 31, 30, 31, 30, 31, 31, 30, 31, 30, 31]"

definition DAYS_BEFORE_MONTH :: "int list" where
  "DAYS_BEFORE_MONTH = [-1, 0, 31, 59, 90, 120, 151, 181, 212, 243, 273, 304, 334]"

text \<open>Both tables are only read at a month in 1..12 (the callers check it first).\<close>

definition days_in_month :: "int \<Rightarrow> int \<Rightarrow> int" where
  "days_in_month year month =
     (if month = 2 \<and> is_leap year then 29 else DAYS_IN_MONTH ! nat month)"

definition days_before_month :: "int \<Rightarrow> int \<Rightarrow> int" where
  "days_before_month year month =
     DAYS_BEFORE_MONTH ! nat month + (if month > 2 \<and> is_leap year then 1 else 0)"

definition ymd2ord :: "int \<Rightarrow> int \<Rightarrow> int \<Rightarrow> int" where
  "ymd2ord year month day =
     days_before_year year + days_before_month year month + day"

text \<open>\<open>date.weekday()\<close>: Monday is 0, Sunday is 6.\<close>

definition weekday :: "int \<Rightarrow> int \<Rightarrow> int \<Rightarrow> int" where
  "weekday year month day = (ymd2ord year month day + 6) mod 7"

text \<open>
  The constructor \<open>datetime.datetime(year, month, day, hour, minute, second)\<close>. The C
  implementation first converts every argument to a C \<open>int\<close> (OverflowError when it
  does not fit), then checks the ranges (ValueError).
\<close>

definition fits_c_int :: "int \<Rightarrow> bool" where
  "fits_c_int x = (- 2147483648 \<le> x \<and> x \<le> 2147483647)"

definition valid_date_fields :: "int \<Rightarrow> int \<Rightarrow> int \<Rightarrow> bool" where
  "valid_date_fields y m d =
     (MINYEAR \<le> y \<and> y \<le> MAXYEAR \<and> 1 \<le> m \<and> m \<le> 12 \<and>
      1 \<le> d \<and> d \<le> days_in_month y m)"

definition valid_time_fields :: "int \<Rightarrow> int \<Rightarrow> int \<Rightarrow> bool" where
  "valid_time_fields hh mm ss =
     (0 \<le> hh \<and> hh \<le> 23 \<and> 0 \<le> mm \<and> mm \<le> 59 \<and> 0 \<le> ss \<and> ss \<le> 59)"

definition datetime_new ::
  "int \<Rightarrow> int \<Rightarrow> int \<Rightarrow> int \<Rightarrow> int \<Rightarrow> int \<Rightarrow> exn + datetime_t" where
  "datetime_new y m d hh mm ss =
     (if \<not> (fits_c_int y \<and> fits_c_int m \<and> fits_c_int d \<and>
             fits_c_int hh \<and> fits_c_int mm \<and> fits_c_int ss)
      then Inl OverflowError
      else if \<not> valid_date_fields y m d then Inl ValueError
      else if \<not> valid_time_fields hh mm ss then Inl ValueError
      else Inr \<lparr>dt_year = y, dt_month = m, dt_day = d,
                dt_hour = hh, dt_minute = mm, dt_second = ss, dt_microsecond = 0\<rparr>)"

text \<open>\<open>datetime.timetuple()\<close> of a naive object: weekday and day of the year are
  computed from the date, the DST flag is \<open>-1\<close> (not known).\<close>

definition timetuple :: "datetime_t \<Rightarrow> struct_time" where
  "timetuple dt =
     \<lparr>tm_year = dt_year dt, tm_mon = dt_month dt, tm_mday = dt_day dt,
      tm_hour = dt_hour dt, tm_min = dt_minute dt, tm_sec = dt_second dt,
      tm_wday = weekday (dt_year dt) (dt_month dt) (dt_day dt),
      tm_yday = days_before_month (dt_year dt) (dt_month dt) + dt_day dt,
      tm_isdst = - 1\<rparr>"

section \<open>\<open>time.strftime\<close> for the four formats of the library\<close>

text \<open>
  Strings are lists of characters with code points below 256.

  \<open>time.strftime\<close> first turns the tuple into a C \<open>struct tm\<close> and checks it:
  every field must fit a C \<open>int\<close> (OverflowError); the weekday becomes
  \<open>(tm_wday + 1) % 7\<close> with C's remainder (Sunday is 0 in C); a month, a day or a
  day of the year that is 0 is taken as 1; then month 1..12, day 1..31, hour 0..23,
  minute 0..59, second 0..61, a weekday that is not negative and a day of the year in
  1..366 are required (ValueError otherwise). The model keeps the month, the day and the
  day of the year in Python's numbering and the weekday in C's.

  \<open>%a\<close> is the abbreviated weekday name of the C locale, the locale in force unless
  the program changes it (this library never does). \<open>%m\<close>, \<open>%d\<close>, \<open>%H\<close> and
  \<open>%M\<close> are two digits with a leading zero; \<open>%Y\<close> is the year in decimal, as the
  GNU C library prints it (four digits from the year 1000 on; the padding of a smaller
  year differs between C libraries).
\<close>

definition c_rem :: "int \<Rightarrow> int \<Rightarrow> int" where
  "c_rem a b = (if a \<ge> 0 then a mod b else - ((- a) mod b))"

definition gettmarg :: "struct_time \<Rightarrow> exn + struct_time" where
  "gettmarg t =
     (if \<not> (fits_c_int (tm_year t) \<and> fits_c_int (tm_mon t) \<and> fits_c_int (tm_mday t) \<and>
             fits_c_int (tm_hour t) \<and> fits_c_int (tm_min t) \<and> fits_c_int (tm_sec t) \<and>
             fits_c_int (tm_wday t) \<and> fits_c_int (tm_yday t) \<and> fits_c_int (tm_isdst t))
      then Inl OverflowError
      else
        let mon = (if tm_mon t = 0 then 1 else tm_mon t);
            mday = (if tm_mday t = 0 then 1 else tm_mday t);
            yday = (if tm_yday t = 0 then 1 else tm_yday t);
            wday = c_rem (tm_wday t + 1) 7
        in if mon < 1 \<or> mon > 12 \<or> mday < 1 \<or> mday > 31 \<or>
              tm_hour t < 0 \<or> tm_hour t > 23 \<or> tm_min t < 0 \<or> tm_min t > 59 \<or>
              tm_sec t < 0 \<or> tm_sec t > 61 \<or> wday < 0 \<or> yday < 1 \<or> yday > 366
           then Inl ValueError
           else Inr (t\<lparr>tm_mon := mon, tm_mday := mday, tm_wday := wday, tm_yday := yday\<rparr>))"

definition digit_chr :: "nat \<Rightarrow> char" where
  "digit_chr d = ''0123456789'' ! d"

definition fmt_2d :: "int \<Rightarrow> string" where
  "fmt_2d n = [digit_chr (nat n div 10), digit_chr (nat n mod 10)]"

function decimal :: "int \<Rightarrow> string" where
  "decimal n =
     (if n < 10 then [digit_chr (nat n)]
      else decimal (n div 10) @ [digit_chr (nat (n mod 10))])"
  by pat_completeness auto
termination
  by (relation "measure nat") auto

declare decimal.simps [simp del]

definition fmt_Y :: "int \<Rightarrow> string" where
  "fmt_Y y = (if y < 0 then ''-'' @ decimal (- y) else decimal y)"

text \<open>The C locale's abbreviated weekday names, indexed as C does (Sunday first).\<close>

definition c_day_abbr :: "int \<Rightarrow> string" where
  "c_day_abbr w = [''Sun'', ''Mon'', ''Tue'', ''Wed'', ''Thu'', ''Fri'', ''Sat''] ! nat w"

text \<open>The part \<open>%Y-%m-%d %a\<close> common to all four formats, and \<open>%H:%M\<close>, of a checked
  tuple.\<close>

definition fmt_date_part :: "struct_time \<Rightarrow> string" where
  "fmt_date_part tm =
     fmt_Y (tm_year tm) @ ''-'' @ fmt_2d (tm_mon tm) @ ''-'' @ fmt_2d (tm_mday tm)
       @ '' '' @ c_day_abbr (tm_wday tm)"

definition fmt_time_part :: "struct_time \<Rightarrow> string" where
  "fmt_time_part tm = fmt_2d (tm_hour tm) @ '':'' @ fmt_2d (tm_min tm)"

text \<open>
  \<open>strftime_org show_time inactive t\<close> is \<open>time.strftime(f, t)\<close> for \<open>f\<close> one of
  \<open>"<%Y-%m-%d %a>"\<close>, \<open>"<%Y-%m-%d %a %H:%M>"\<close>, \<open>"[%Y-%m-%d %a]"\<close>,
  \<open>"[%Y-%m-%d %a %H:%M]"\<close>.
\<close>

definition strftime_org :: "bool \<Rightarrow> bool \<Rightarrow> struct_time \<Rightarrow> exn + string" where
  "strftime_org show_time inactive t =
     (case gettmarg t of
        Inl e \<Rightarrow> Inl e
      | Inr tm \<Rightarrow>
          Inr ((if inactive then ''['' else ''<'')
               @ fmt_date_part tm
               @ (if show_time then '' '' @ fmt_time_part tm else [])
               @ (if inactive then '']'' else ''>'')))"

section \<open>Conversion layer of \<open>OrgFormat\<close>\<close>

definition struct_time_to_datetime :: "struct_time \<Rightarrow> exn + datetime_t" where
  "struct_time_to_datetime tuple_date =
     datetime_new (tm_year tuple_date) (tm_mon tuple_date) (tm_mday tuple_date)
                  (tm_hour tuple_date) (tm_min tuple_date) (tm_sec tuple_date)"

definition datetime_to_struct_time :: "datetime_t \<Rightarrow> struct_time" where
  "datetime_to_struct_time tuple_date = timetuple tuple_date"

definition fix_struct_time_wday :: "struct_time \<Rightarrow> exn + struct_time" where
  "fix_struct_time_wday tuple_date =
     (case struct_time_to_datetime tuple_date of
        Inl e \<Rightarrow> Inl e
      | Inr datetimestamp \<Rightarrow>
          Inr \<lparr>tm_year = dt_year datetimestamp,
               tm_mon = dt_month datetimestamp,
               tm_mday = dt_day datetimestamp,
               tm_hour = dt_hour datetimestamp,
               tm_min = dt_minute datetimestamp,
               tm_sec = dt_second datetimestamp,
               tm_wday = weekday (dt_year datetimestamp) (dt_month datetimestamp)
                                 (dt_day datetimestamp),
               tm_yday = 0, tm_isdst = 0\<rparr>)"

section \<open>Formatting layer of \<open>OrgFormat\<close>\<close>

text \<open>The step shared by \<open>date\<close> and \<open>inactive_date\<close>: a struct_time gets its
  weekday fixed, a datetime object is converted.\<close>

definition local_structtime :: "timeval \<Rightarrow> exn + struct_time" where
  "local_structtime tuple_date =
     (case tuple_date of
        StructTime t \<Rightarrow> fix_struct_time_wday t
      | DateTime d \<Rightarrow> Inr (datetime_to_struct_time d))"

definition date :: "timeval \<Rightarrow> bool \<Rightarrow> bool \<Rightarrow> exn + string" where
  "date tuple_date show_time inactive =
     (case local_structtime tuple_date of
        Inl e \<Rightarrow> Inl e
      | Inr lst \<Rightarrow>
          (if show_time then
             (if inactive then strftime_org True True lst
              else strftime_org True False lst)
           else
             (if inactive then strftime_org False True lst
              else strftime_org False False lst)))"

definition inactive_date :: "timeval \<Rightarrow> bool \<Rightarrow> exn + string" where
  "inactive_date tuple_date show_time =
     (case local_structtime tuple_date of
        Inl e \<Rightarrow> Inl e
      | Inr lst \<Rightarrow>
          (case fix_struct_time_wday lst of
             Inl e \<Rightarrow> Inl e
           | Inr fixed \<Rightarrow>
               (if show_time then strftime_org True True fixed
                else strftime_org False True fixed)))"

text \<open>\<open>OrgFormat.datetime\<close>: the parameter \<open>inactive\<close> is accepted and not passed on.\<close>

definition datetime :: "timeval \<Rightarrow> bool \<Rightarrow> exn + string" where
  "datetime tuple_datetime inactive = date tuple_datetime True False"

definition inactive_datetime :: "timeval \<Rightarrow> exn + string" where
  "inactive_datetime tuple_datetime = inactive_date tuple_datetime True"

text \<open>\<open>"%s--%s" % (a, b)\<close>; the first argument is evaluated first.\<close>

definition join_range :: "exn + string \<Rightarrow> exn + string \<Rightarrow> exn + string" where
  "join_range a b =
     (case a of
        Inl e \<Rightarrow> Inl e
      | Inr x \<Rightarrow> (case b of Inl e \<Rightarrow> Inl e | Inr y \<Rightarrow> Inr (x @ ''--'' @ y)))"

text \<open>\<open>daterange\<close>, \<open>datetimerange\<close> and \<open>utcrange\<close> assert that both arguments are
  struct_time values, so the model takes that type.\<close>

definition daterange :: "struct_time \<Rightarrow> struct_time \<Rightarrow> exn + string" where
  "daterange begin end =
     join_range (date (StructTime begin) False False) (date (StructTime end) False False)"

definition datetimerange :: "struct_time \<Rightarrow> struct_time \<Rightarrow> exn + string" where
  "datetimerange begin end =
     join_range (date (StructTime begin) True False) (date (StructTime end) True False)"

definition utcrange :: "struct_time \<Rightarrow> struct_time \<Rightarrow> exn + string" where
  "utcrange begin_tupel end_tupel =
     (if tm_sec begin_tupel = 0 \<and> tm_min begin_tupel = 0 \<and> tm_hour begin_tupel = 0 \<and>
         tm_sec end_tupel = 0 \<and> tm_min end_tupel = 0 \<and> tm_hour end_tupel = 0
      then daterange begin_tupel end_tupel
      else datetimerange begin_tupel end_tupel)"

section \<open>Grammar layer: the regular expressions\<close>

text \<open>
  The patterns use only literals, character classes, sequencing, alternation, an
  optional group, numbered groups and the end anchor. \<open>matches r s c\<close> is the
  backtracking matcher of \<open>re\<close> on that fragment: the list, in the order in which
  the matcher tries them, of the ways \<open>r\<close> can match at the start of \<open>s\<close>, each as
  the rest of the string and the groups captured so far. An alternation tries its left
  branch first; an optional item is tried before it is skipped (greedy); \<open>$\<close> holds
  at the end of the string and just before a newline that ends the string.

  On characters below 256 the class \<open>\d\<close> is the ten ASCII digits.
\<close>

datatype regex =
    Chars string
  | Eps
  | Seq regex regex
  | Alt regex regex
  | Opt regex
  | Group nat regex
  | Eos

type_synonym groups = "nat \<Rightarrow> string option"

fun matches :: "regex \<Rightarrow> string \<Rightarrow> groups \<Rightarrow> (string \<times> groups) list" where
  "matches (Chars cs) s c =
     (case s of [] \<Rightarrow> [] | x # xs \<Rightarrow> if x \<in> set cs then [(xs, c)] else [])"
| "matches Eps s c = [(s, c)]"
| "matches (Seq r1 r2) s c =
     concat (map (\<lambda>(s', c'). matches r2 s' c') (matches r1 s c))"
| "matches (Alt r1 r2) s c = matches r1 s c @ matches r2 s c"
| "matches (Opt r) s c = matches r s c @ [(s, c)]"
| "matches (Group n r) s c =
     map (\<lambda>(s', c'). (s', c'(n \<mapsto> take (length s - length s') s))) (matches r s c)"
| "matches Eos s c = (if s = [] \<or> s = [CHR 0x0A] then [(s, c)] else [])"

text \<open>\<open>re.match(pattern, string)\<close>: the first way to match at the start of the
  string, or \<open>None\<close>.\<close>

definition re_match :: "regex \<Rightarrow> string \<Rightarrow> groups option" where
  "re_match r s =
     (case matches r s (\<lambda>n. None) of [] \<Rightarrow> None | (s', c) # rest \<Rightarrow> Some c)"

text \<open>Building blocks: a literal string, a sequence and an alternation of several items.\<close>

definition lit :: "string \<Rightarrow> regex" where
  "lit s = foldr (\<lambda>x r. Seq (Chars [x]) r) s Eps"

definition seqs :: "regex list \<Rightarrow> regex" where
  "seqs rs = foldr Seq rs Eps"

fun alts :: "regex list \<Rightarrow> regex" where
  "alts [] = Chars []"
| "alts [r] = r"
| "alts (r # rs) = Alt r (alts rs)"

definition digit :: regex where
  "digit = Chars ''0123456789''"

definition WEEKDAYS :: "string list" where
  "WEEKDAYS =
     [''Mon'', ''Tue'', ''Wed'', ''Thu'', ''Fri'', ''Sat'', ''Sun'',
      ''Mo'', ''Di'', ''Mi'', ''Do'', ''Fr'', ''Sa'', ''So'',
      ''Mon'', ''Die'', ''Mit'', ''Don'', ''Fre'', ''Sam'', ''Son'']"

text \<open>
  \<open>SINGLE_ORGMODE_TIMESTAMP\<close>. Groups are numbered by their opening parenthesis; in the
  range pattern the second copy comes after ten groups, so the pattern takes the number
  \<open>k\<close> of groups before it:

  \<^verbatim>\<open>([<\[]([12]\d\d\d)-([012345]\d)-([012345]\d) (Mon|Tue|...|Son) (([01]\d)|(20|21|22|23)):([012345]\d)[>\]])\<close>
\<close>

definition SINGLE_ORGMODE_TIMESTAMP :: "nat \<Rightarrow> regex" where
  "SINGLE_ORGMODE_TIMESTAMP k =
     Group (k + 1) (seqs
       [Chars ''<['',
        Group (k + 2) (seqs [Chars ''12'', digit, digit, digit]),
        lit ''-'',
        Group (k + 3) (seqs [Chars ''012345'', digit]),
        lit ''-'',
        Group (k + 4) (seqs [Chars ''012345'', digit]),
        lit '' '',
        Group (k + 5) (alts (map lit WEEKDAYS)),
        lit '' '',
        Group (k + 6)
          (Alt (Group (k + 7) (seqs [Chars ''01'', digit]))
               (Group (k + 8) (alts [lit ''20'', lit ''21'', lit ''22'', lit ''23'']))),
        lit '':'',
        Group (k + 9) (seqs [Chars ''012345'', digit]),
        Chars ''>]''])"

definition ORGMODE_TIMESTAMP_REGEX :: regex where
  "ORGMODE_TIMESTAMP_REGEX = Seq (SINGLE_ORGMODE_TIMESTAMP 0) Eos"

definition ORGMODE_TIMESTAMP_RANGE_REGEX :: regex where
  "ORGMODE_TIMESTAMP_RANGE_REGEX =
     seqs [SINGLE_ORGMODE_TIMESTAMP 0, lit ''-'', Opt (Group 10 (lit ''-'')),
           SINGLE_ORGMODE_TIMESTAMP 10, Eos]"

section \<open>Parsing a bracketed time-stamp\<close>

text \<open>
  \<open>int(s)\<close> on the strings the groups can hold: a non-empty run of ASCII digits gives
  its decimal value. (Python's \<open>int\<close> also accepts signs, blanks and underscores; the
  groups never contain them. Anything else is a ValueError.) \<open>int(None)\<close>, for a group
  that took no part in the match, is a TypeError.
\<close>

definition digit_val :: "char \<Rightarrow> int" where
  "digit_val x = int (of_char x) - 48"

definition is_digit :: "char \<Rightarrow> bool" where
  "is_digit x = (x \<in> set ''0123456789'')"

definition digits_val :: "string \<Rightarrow> int" where
  "digits_val s = foldl (\<lambda>a x. 10 * a + digit_val x) 0 s"

definition py_int :: "string \<Rightarrow> exn + int" where
  "py_int s =
     (if s \<noteq> [] \<and> list_all is_digit s then Inr (digits_val s) else Inl ValueError)"

definition int_group :: "groups \<Rightarrow> nat \<Rightarrow> exn + int" where
  "int_group components n =
     (case components n of None \<Rightarrow> Inl TypeError | Some g \<Rightarrow> py_int g)"

definition bind_exn :: "exn + 'a \<Rightarrow> ('a \<Rightarrow> exn + 'b) \<Rightarrow> exn + 'b" where
  "bind_exn m f = (case m of Inl e \<Rightarrow> Inl e | Inr x \<Rightarrow> f x)"

definition parse_error_text :: "string \<Rightarrow> string" where
  "parse_error_text orgtime =
     ''string could not be parsed as time-stamp of format \"<YYYY-MM-DD Sun ''
       @ ''HH:MM>\" (including inactive ones): \"'' @ orgtime @ ''\"''"

definition orgmode_timestamp_to_datetime :: "string \<Rightarrow> exn + datetime_t" where
  "orgmode_timestamp_to_datetime orgtime =
     (case re_match ORGMODE_TIMESTAMP_REGEX orgtime of
        None \<Rightarrow> Inl (TimestampParseException (Text (parse_error_text orgtime)))
      | Some components \<Rightarrow>
          bind_exn (int_group components 2) (\<lambda>year.
          bind_exn (int_group components 3) (\<lambda>month.
          bind_exn (int_group components 4) (\<lambda>day.
          bind_exn (int_group components 6) (\<lambda>hour.
          bind_exn (int_group components 9) (\<lambda>minute.
            datetime_new year month day hour minute 0))))))"

section \<open>\<open>datetime.timedelta\<close> and adding it to a \<open>datetime\<close>\<close>

text \<open>
  The hour delta is an \<open>int\<close> or a \<open>float\<close>. A finite float is the number
  \<open>m * 2 ^ e\<close> for integers \<open>m\<close> and \<open>e\<close> (\<open>-2.5\<close> is \<open>Finite (-5) (-1)\<close>); the
  other floats are the two infinities and not-a-number.
\<close>

datatype pyfloat = Finite int int | Infinite | NaN

datatype pynum = PyInt int | PyFloat pyfloat

text \<open>A \<open>timedelta\<close> holds days, seconds in 0..86399 and microseconds in 0..999999.\<close>

record timedelta =
  td_days :: int
  td_seconds :: int
  td_microseconds :: int

definition total_microseconds :: "timedelta \<Rightarrow> int" where
  "total_microseconds td =
     (td_days td * 86400 + td_seconds td) * 1000000 + td_microseconds td"

text \<open>The constructor's last step: split a count of microseconds, and refuse a number of
  days beyond 999999999 in magnitude.\<close>

definition microseconds_to_delta :: "int \<Rightarrow> exn + timedelta" where
  "microseconds_to_delta us =
     (let days = us div 86400000000;
          rest = us mod 86400000000
      in if days < - 999999999 \<or> days > 999999999 then Inl OverflowError
         else Inr \<lparr>td_days = days, td_seconds = rest div 1000000,
                   td_microseconds = rest mod 1000000\<rparr>)"

text \<open>Division that truncates towards zero (C's \<open>modf\<close> splits a double this way).\<close>

definition trunc_quot :: "int \<Rightarrow> int \<Rightarrow> int" where
  "trunc_quot a b = (if a \<ge> 0 then a div b else - ((- a) div b))"

function bit_length :: "int \<Rightarrow> nat" where
  "bit_length n = (if n \<le> 0 then 0 else Suc (bit_length (n div 2)))"
  by pat_completeness auto
termination
  by (relation "measure nat") auto

declare bit_length.simps [simp del]

text \<open>Round an integer to the nearest integer of at most 53 significant bits, ties to the
  even one: the rounding of a double-precision product.\<close>

definition round_53 :: "int \<Rightarrow> int" where
  "round_53 n =
     (let a = \<bar>n\<bar>; k = bit_length a - 53;
          hi = a div 2 ^ k; lo = a mod 2 ^ k;
          up = (2 * lo > 2 ^ k \<or> (2 * lo = 2 ^ k \<and> odd hi));
          r = (if up then hi + 1 else hi) * 2 ^ k
      in if n < 0 then - r else r)"

text \<open>
  \<open>hours_to_microseconds\<close> follows the constructor's handling of the \<open>hours\<close>
  argument (factor 3600000000 microseconds). An \<open>int\<close> is multiplied exactly. A float
  is split into its integer part and its fraction; the integer part is multiplied
  exactly; the fraction is multiplied by the factor in double precision, the product is
  split again, and what is left below one microsecond is rounded to the nearest
  microsecond, a tie going to the even total.
\<close>

definition us_per_hour :: int where
  "us_per_hour = 3600000000"

definition hours_to_microseconds :: "pynum \<Rightarrow> exn + int" where
  "hours_to_microseconds h =
     (case h of
        PyInt n \<Rightarrow> Inr (n * us_per_hour)
      | PyFloat NaN \<Rightarrow> Inl ValueError
      | PyFloat Infinite \<Rightarrow> Inl OverflowError
      | PyFloat (Finite m e) \<Rightarrow>
          (if e \<ge> 0 then Inr (m * 2 ^ nat e * us_per_hour)
           else
             let q = 2 ^ nat (- e);
                 intpart = trunc_quot m q;
                 frac = m - intpart * q;
                 sum = intpart * us_per_hour
             in if frac = 0 then Inr sum
                else
                  let prod = round_53 (us_per_hour * frac);
                      intpart2 = trunc_quot prod q;
                      leftover = prod - intpart2 * q;
                      x = sum + intpart2;
                      whole =
                        (if 2 * \<bar>leftover\<bar> < q then 0
                         else if 2 * \<bar>leftover\<bar> > q then (if leftover > 0 then 1 else - 1)
                         else if even x then 0
                         else if leftover > 0 then 1 else - 1)
                  in Inr (x + whole)))"

text \<open>\<open>datetime.timedelta(0, 0, 0, 0, 0, deltahours)\<close>: the sixth positional argument is
  \<open>hours\<close>.\<close>

definition timedelta_hours :: "pynum \<Rightarrow> exn + timedelta" where
  "timedelta_hours deltahours =
     bind_exn (hours_to_microseconds deltahours) microseconds_to_delta"

text \<open>
  \<open>_ord2ymd\<close>: the date of a day number (1 is 1 January of the year 1).
\<close>

definition DI400Y :: int where "DI400Y = 146097"
definition DI100Y :: int where "DI100Y = 36524"
definition DI4Y :: int where "DI4Y = 1461"
definition MAXORDINAL :: int where "MAXORDINAL = 3652059"

text \<open>The last step of \<open>_ord2ymd\<close>: month and day of the \<open>n\<close>-th day (from 0) of a
  year, by an estimate of the month that is corrected when it is one too large.\<close>

definition month_and_day :: "bool \<Rightarrow> int \<Rightarrow> int \<times> int" where
  "month_and_day leapyear n =
     (let month = (n + 50) div 32;
          preceding = DAYS_BEFORE_MONTH ! nat month
                        + (if month > 2 \<and> leapyear then 1 else 0)
      in if preceding > n
         then let month' = month - 1;
                  preceding' = preceding
                    - (DAYS_IN_MONTH ! nat month'
                       + (if month' = 2 \<and> leapyear then 1 else 0))
              in (month', n - preceding' + 1)
         else (month, n - preceding + 1))"

definition ord2ymd :: "int \<Rightarrow> int \<times> int \<times> int" where
  "ord2ymd ordinal =
     (let n0 = ordinal - 1;
          n400 = n0 div DI400Y; n1 = n0 mod DI400Y;
          n100 = n1 div DI100Y; n2 = n1 mod DI100Y;
          n4 = n2 div DI4Y; n3 = n2 mod DI4Y;
          ny = n3 div 365; n = n3 mod 365;
          year = n400 * 400 + 1 + n100 * 100 + n4 * 4 + ny
      in if ny = 4 \<or> n100 = 4 then (year - 1, 12, 31)
         else
           let leapyear = (ny = 3 \<and> (n4 \<noteq> 24 \<or> n100 = 3))
           in (case month_and_day leapyear n of (month, day) \<Rightarrow> (year, month, day)))"

text \<open>
  \<open>datetime + timedelta\<close>: the day number and the time of day of the object are
  turned into a count of microseconds, the delta is added, and the sum is split again;
  a day number outside 1..MAXORDINAL is an OverflowError.
\<close>

definition instant_us :: "datetime_t \<Rightarrow> int" where
  "instant_us dt =
     ((ymd2ord (dt_year dt) (dt_month dt) (dt_day dt) * 86400
       + dt_hour dt * 3600 + dt_minute dt * 60 + dt_second dt) * 1000000
      + dt_microsecond dt)"

definition datetime_add :: "datetime_t \<Rightarrow> timedelta \<Rightarrow> exn + datetime_t" where
  "datetime_add dt td =
     bind_exn (microseconds_to_delta (instant_us dt + total_microseconds td)) (\<lambda>delta.
       let hour = td_seconds delta div 3600;
           rem = td_seconds delta mod 3600;
           minute = rem div 60;
           second = rem mod 60
       in if 0 < td_days delta \<and> td_days delta \<le> MAXORDINAL
          then (case ord2ymd (td_days delta) of
                  (y, m, d) \<Rightarrow>
                    Inr \<lparr>dt_year = y, dt_month = m, dt_day = d,
                         dt_hour = hour, dt_minute = minute, dt_second = second,
                         dt_microsecond = td_microseconds delta\<rparr>)
          else Inl OverflowError)"

section \<open>Arithmetic on the textual time-stamp\<close>

text \<open>One endpoint: parse, add the delta, render with \<open>OrgFormat.datetime\<close>. Python
  evaluates the parse before it builds the timedelta.\<close>

definition shift_and_render :: "exn + datetime_t \<Rightarrow> pynum \<Rightarrow> exn + string" where
  "shift_and_render parsed deltahours =
     bind_exn parsed (\<lambda>dt.
     bind_exn (timedelta_hours deltahours) (\<lambda>td.
     bind_exn (datetime_add dt td) (\<lambda>shifted.
       datetime (DateTime shifted) False)))"

text \<open>\<open>range_components.groups(0)[i]\<close>: group \<open>i + 1\<close>, or the integer 0 when the group
  took no part; \<open>orgmode_timestamp_to_datetime\<close> asserts that its argument is a string.\<close>

definition parse_group :: "groups \<Rightarrow> nat \<Rightarrow> exn + datetime_t" where
  "parse_group range_components i =
     (case range_components (i + 1) of
        None \<Rightarrow> Inl AssertionError
      | Some g \<Rightarrow> orgmode_timestamp_to_datetime g)"

definition apply_timedelta_to_Orgmode_timestamp :: "string \<Rightarrow> pynum \<Rightarrow> exn + string" where
  "apply_timedelta_to_Orgmode_timestamp orgtime deltahours =
     (case re_match ORGMODE_TIMESTAMP_RANGE_REGEX orgtime of
        Some range_components \<Rightarrow>
          bind_exn (shift_and_render (parse_group range_components 0) deltahours) (\<lambda>a.
          bind_exn (shift_and_render (parse_group range_components 10) deltahours) (\<lambda>b.
            Inr (a @ ''--'' @ b)))
      | None \<Rightarrow>
          shift_and_render (orgmode_timestamp_to_datetime orgtime) deltahours)"

section \<open>Parsing ISO and compact strings\<close>

text \<open>
  \<open>time.strptime\<close> and the conversion \<open>time.localtime(calendar.timegm(t))\<close> belong to
  the standard library and are parameters of the model: \<open>strptime s fmt\<close> returns a
  struct_time or raises, \<open>utc_to_local t\<close> likewise. \<open>except ValueError as e: raise
  TimestampParseException(e)\<close> turns a ValueError, and nothing else, into the library's
  exception. \<open>logging.error\<close> only writes a log record and is left out.
\<close>

definition except_ValueError :: "exn + 'a \<Rightarrow> exn + 'a" where
  "except_ValueError r =
     (case r of
        Inl ValueError \<Rightarrow> Inl (TimestampParseException (Wrapped ValueError))
      | Inl e \<Rightarrow> Inl e
      | Inr v \<Rightarrow> Inr v)"

definition datetimetupeliso8601 ::
  "(string \<Rightarrow> string \<Rightarrow> exn + struct_time) \<Rightarrow> string \<Rightarrow> exn + struct_time" where
  "datetimetupeliso8601 strptime datetime_string =
     (if length datetime_string = 16
      then except_ValueError (strptime datetime_string ''%Y-%m-%dT%H.%M'')
      else if length datetime_string = 19
      then except_ValueError (strptime datetime_string ''%Y-%m-%dT%H.%M.%S'')
      else Inl AssertionError)"

definition datetupeliso8601 ::
  "(string \<Rightarrow> string \<Rightarrow> exn + struct_time) \<Rightarrow> string \<Rightarrow> exn + struct_time" where
  "datetupeliso8601 strptime datetime_string =
     except_ValueError (strptime datetime_string ''%Y-%m-%d'')"

definition datetupelutctimestamp ::
  "(string \<Rightarrow> string \<Rightarrow> exn + struct_time) \<Rightarrow> (struct_time \<Rightarrow> exn + struct_time)
     \<Rightarrow> string \<Rightarrow> exn + struct_time" where
  "datetupelutctimestamp strptime utc_to_local datetime_string =
     (let string_length = length datetime_string
      in if string_length = 16
         then except_ValueError
                (bind_exn (strptime datetime_string ''%Y%m%dT%H%M%SZ'') utc_to_local)
         else if string_length = 15
         then except_ValueError (strptime datetime_string ''%Y%m%dT%H%M%S'')
         else if string_length = 8
         then except_ValueError (strptime datetime_string ''%Y%m%d'')
         else if string_length = 27
         then except_ValueError
                (bind_exn (strptime (takeWhile (\<lambda>x. x \<noteq> CHR ''.'') datetime_string @ ''Z'')
                                    ''%Y-%m-%dT%H:%M:%SZ'')
                          utc_to_local)
         else Inl AssertionError)"

section \<open>Predicates used to state the properties\<close>

text \<open>The six fields of a struct_time that \<open>datetime.datetime\<close> accepts.\<close>

definition valid_fields :: "struct_time \<Rightarrow> bool" where
  "valid_fields t =
     (valid_date_fields (tm_year t) (tm_mon t) (tm_mday t) \<and>
      valid_time_fields (tm_hour t) (tm_min t) (tm_sec t))"

text \<open>The struct_time that \<open>fix_struct_time_wday\<close> builds from valid fields.\<close>

definition fixed_wday :: "struct_time \<Rightarrow> struct_time" where
  "fixed_wday t =
     t\<lparr>tm_wday := weekday (tm_year t) (tm_mon t) (tm_mday t), tm_yday := 0, tm_isdst := 0\<rparr>"

text \<open>The weekday abbreviation for a weekday number in Python's numbering (Monday is 0),
  and the rendering \<open>YYYY-MM-DD Www\<close> of a date with the weekday of that date.\<close>

definition day_name :: "int \<Rightarrow> string" where
  "day_name w = [''Mon'', ''Tue'', ''Wed'', ''Thu'', ''Fri'', ''Sat'', ''Sun''] ! nat w"

definition date_text :: "int \<Rightarrow> int \<Rightarrow> int \<Rightarrow> string" where
  "date_text y m d =
     fmt_Y y @ ''-'' @ fmt_2d m @ ''-'' @ fmt_2d d @ '' '' @ day_name (weekday y m d)"

definition time_text :: "int \<Rightarrow> int \<Rightarrow> string" where
  "time_text hh mm = fmt_2d hh @ '':'' @ fmt_2d mm"

text \<open>An endpoint without time information: hour, minute and second are all zero.\<close>

definition midnight :: "struct_time \<Rightarrow> bool" where
  "midnight t = (tm_hour t = 0 \<and> tm_min t = 0 \<and> tm_sec t = 0)"

text \<open>
  The parts of a bracketed time-stamp text, the text they spell, and the conditions the
  single-timestamp pattern puts on them.
\<close>

record ts_parts =
  p_open :: char
  p_year :: string
  p_month :: string
  p_day :: string
  p_wday :: string
  p_hour :: string
  p_minute :: string
  p_close :: char

definition ts_text :: "ts_parts \<Rightarrow> string" where
  "ts_text p =
     [p_open p] @ p_year p @ ''-'' @ p_month p @ ''-'' @ p_day p @ '' '' @ p_wday p
       @ '' '' @ p_hour p @ '':'' @ p_minute p @ [p_close p]"

fun year_ok :: "string \<Rightarrow> bool" where
  "year_ok [a, b, c, d] = (a \<in> set ''12'' \<and> is_digit b \<and> is_digit c \<and> is_digit d)"
| "year_ok y = False"

fun two_ok :: "string \<Rightarrow> string \<Rightarrow> bool" where
  "two_ok cls [a, b] = (a \<in> set cls \<and> is_digit b)"
| "two_ok cls x = False"

definition hour_ok :: "string \<Rightarrow> bool" where
  "hour_ok hh = (two_ok ''01'' hh \<or> hh \<in> set [''20'', ''21'', ''22'', ''23''])"

definition ts_ok :: "ts_parts \<Rightarrow> bool" where
  "ts_ok p =
     (p_open p \<in> set ''<['' \<and> year_ok (p_year p) \<and> two_ok ''012345'' (p_month p) \<and>
      two_ok ''012345'' (p_day p) \<and> p_wday p \<in> set WEEKDAYS \<and> hour_ok (p_hour p) \<and>
      two_ok ''012345'' (p_minute p) \<and> p_close p \<in> set ''>]'')"


text \<open>The groups a match of \<open>SINGLE_ORGMODE_TIMESTAMP k\<close> sets: the whole text, year,
  month, day, weekday, hour (and one of the two hour alternatives) and minute.\<close>

definition set_groups :: "nat \<Rightarrow> ts_parts \<Rightarrow> groups \<Rightarrow> groups" where
  "set_groups k p c =
     c(k + 2 \<mapsto> p_year p, k + 3 \<mapsto> p_month p, k + 4 \<mapsto> p_day p, k + 5 \<mapsto> p_wday p,
       (if two_ok ''01'' (p_hour p) then k + 7 else k + 8) \<mapsto> p_hour p,
       k + 6 \<mapsto> p_hour p, k + 9 \<mapsto> p_minute p, k + 1 \<mapsto> ts_text p)"

text \<open>What \<open>$\<close> allows after the match: nothing, or one final newline.\<close>

definition newline_or_end :: "string \<Rightarrow> bool" where
  "newline_or_end nl = (nl = [] \<or> nl = [CHR 0x0A])"

text \<open>The separator of a range: one dash or two.\<close>

definition dash_ok :: "string \<Rightarrow> bool" where
  "dash_ok dash = (dash = ''-'' \<or> dash = ''--'')"

text \<open>A datetime object whose fields the constructor accepts.\<close>

definition valid_datetime :: "datetime_t \<Rightarrow> bool" where
  "valid_datetime dt =
     (valid_date_fields (dt_year dt) (dt_month dt) (dt_day dt) \<and>
      valid_time_fields (dt_hour dt) (dt_minute dt) (dt_second dt))"

text \<open>The parts of the text that \<open>strftime\<close> renders for a date and time.\<close>

definition rendered_parts :: "int \<Rightarrow> int \<Rightarrow> int \<Rightarrow> int \<Rightarrow> int \<Rightarrow> ts_parts" where
  "rendered_parts y m d hh mm =
     \<lparr>p_open = CHR ''<'', p_year = fmt_Y y, p_month = fmt_2d m, p_day = fmt_2d d,
      p_wday = day_name (weekday y m d), p_hour = fmt_2d hh, p_minute = fmt_2d mm,
      p_close = CHR ''>''\<rparr>"


text \<open>The active date+time rendering \<open><YYYY-MM-DD Www HH:MM>\<close> of a date and time, with
  the weekday of that date.\<close>

definition org_datetime_text :: "int \<Rightarrow> int \<Rightarrow> int \<Rightarrow> int \<Rightarrow> int \<Rightarrow> string" where
  "org_datetime_text y m d hh mm =
     ''<'' @ date_text y m d @ '' '' @ time_text hh mm @ ''>''"

text \<open>Names for the sub-patterns of \<open>SINGLE_ORGMODE_TIMESTAMP\<close>.\<close>

definition year_re :: regex where
  "year_re = seqs [Chars ''12'', digit, digit, digit]"

definition two_re :: "string \<Rightarrow> regex" where
  "two_re cls = seqs [Chars cls, digit]"

definition wday_re :: regex where
  "wday_re = alts (map lit WEEKDAYS)"

definition hour_re :: "nat \<Rightarrow> nat \<Rightarrow> regex" where
  "hour_re k7 k8 =
     Alt (Group k7 (seqs [Chars ''01'', digit]))
         (Group k8 (alts [lit ''20'', lit ''21'', lit ''22'', lit ''23'']))"


section \<open>Evaluation rules\<close>

lemmas cal_eval = weekday_def ymd2ord_def days_before_year_def days_before_month_def
  DAYS_BEFORE_MONTH_def days_in_month_def DAYS_IN_MONTH_def is_leap_def
  valid_fields_def valid_date_fields_def valid_time_fields_def MINYEAR_def MAXYEAR_def

lemmas fmt_eval = fmt_Y_def decimal.simps fmt_2d_def digit_chr_def day_name_def
  date_text_def time_text_def

section \<open>Facts about the calendar and the formats\<close>

lemma month_cases:
  "1 \<le> m \<Longrightarrow> m \<le> 12 \<Longrightarrow>
   m = 1 \<or> m = 2 \<or> m = 3 \<or> m = 4 \<or> m = 5 \<or> m = 6 \<or> m = 7 \<or> m = 8 \<or> m = 9 \<or> m = 10 \<or> m = 11 \<or> m = (12::int)"
  by arith

lemma days_in_month_bounds:
  assumes "1 \<le> m" "m \<le> 12"
  shows "28 \<le> days_in_month y m \<and> days_in_month y m \<le> 31"
  using month_cases [OF assms]
  by (elim disjE) (simp_all add: days_in_month_def DAYS_IN_MONTH_def)

lemma days_before_month_bounds:
  assumes "1 \<le> m" "m \<le> 12"
  shows "0 \<le> days_before_month y m \<and> days_before_month y m \<le> 335"
  using month_cases [OF assms]
  by (elim disjE) (simp_all add: days_before_month_def DAYS_BEFORE_MONTH_def)

lemma weekday_range: "0 \<le> weekday y m d \<and> weekday y m d \<le> 6"
  by (simp add: weekday_def)

lemma weekday_cases:
  "weekday y m d = 0 \<or> weekday y m d = 1 \<or> weekday y m d = 2 \<or> weekday y m d = 3 \<or>
   weekday y m d = 4 \<or> weekday y m d = 5 \<or> weekday y m d = 6"
  using weekday_range [of y m d] by arith

lemma c_day_abbr_wday:
  assumes "0 \<le> w" "w \<le> 6"
  shows "c_rem (w + 1) 7 \<ge> 0 \<and> c_day_abbr (c_rem (w + 1) 7) = day_name w"
proof -
  from assms have "w = 0 \<or> w = 1 \<or> w = 2 \<or> w = 3 \<or> w = 4 \<or> w = 5 \<or> w = 6" by arith
  then show ?thesis
    by (elim disjE) (simp_all add: c_rem_def c_day_abbr_def day_name_def)
qed

lemma valid_fits:
  assumes "valid_date_fields y m d" "valid_time_fields hh mm ss"
  shows "fits_c_int y \<and> fits_c_int m \<and> fits_c_int d \<and> fits_c_int hh \<and> fits_c_int mm \<and> fits_c_int ss"
proof -
  from assms(1) have m: "1 \<le> m" "m \<le> 12" by (simp_all add: valid_date_fields_def)
  from days_in_month_bounds [OF m, of y] assms show ?thesis
    by (simp add: valid_date_fields_def valid_time_fields_def fits_c_int_def MINYEAR_def MAXYEAR_def)
qed

lemma fix_struct_time_wday_valid:
  assumes "valid_fields t"
  shows "fix_struct_time_wday t = Inr (fixed_wday t)"
  using assms valid_fits [of "tm_year t" "tm_mon t" "tm_mday t" "tm_hour t" "tm_min t" "tm_sec t"]
  by (simp add: fix_struct_time_wday_def struct_time_to_datetime_def datetime_new_def valid_fields_def fixed_wday_def)

lemma fix_struct_time_wday_invalid:
  assumes "\<not> valid_fields t"
  shows "fix_struct_time_wday t = Inl ValueError \<or> fix_struct_time_wday t = Inl OverflowError"
  using assms 
  by (auto simp add: fix_struct_time_wday_def struct_time_to_datetime_def datetime_new_def valid_fields_def)

text \<open>What strftime prints for a tuple with valid fields, a weekday in 0..6 and a day of the year in 0..366.\<close>

lemma strftime_org_valid:
  assumes v: "valid_fields t" and w: "0 \<le> tm_wday t" "tm_wday t \<le> 6"
    and yd: "0 \<le> tm_yday t" "tm_yday t \<le> 366" and dst: "fits_c_int (tm_isdst t)"
  shows "strftime_org show_time inactive t =
         Inr ((if inactive then ''['' else ''<'')
              @ fmt_Y (tm_year t) @ ''-'' @ fmt_2d (tm_mon t) @ ''-'' @ fmt_2d (tm_mday t)
              @ '' '' @ day_name (tm_wday t)
              @ (if show_time then '' '' @ time_text (tm_hour t) (tm_min t) else [])
              @ (if inactive then '']'' else ''>''))"
proof -
  from v have m: "1 \<le> tm_mon t" "tm_mon t \<le> 12" by (simp_all add: valid_fields_def valid_date_fields_def)
  note dim = days_in_month_bounds [OF m, of "tm_year t"]
  note f = valid_fits [of "tm_year t" "tm_mon t" "tm_mday t" "tm_hour t" "tm_min t" "tm_sec t"]
  have fw: "fits_c_int (tm_wday t)" "fits_c_int (tm_yday t)" using w yd by (simp_all add: fits_c_int_def)
  note cw = c_day_abbr_wday [OF w]
  have g: "gettmarg t = Inr (t\<lparr>tm_wday := c_rem (tm_wday t + 1) 7, tm_yday := (if tm_yday t = 0 then 1 else tm_yday t)\<rparr>)"
    using v f fw dst dim cw yd
    by (simp add: gettmarg_def valid_fields_def valid_date_fields_def valid_time_fields_def Let_def)
  show ?thesis
    by (simp add: strftime_org_def g fmt_date_part_def fmt_time_part_def time_text_def cw)
qed

lemma date_struct_time_valid:
  assumes "valid_fields t"
  shows "date (StructTime t) show_time inactive =
         Inr ((if inactive then ''['' else ''<'')
                @ date_text (tm_year t) (tm_mon t) (tm_mday t)
                @ (if show_time then '' '' @ time_text (tm_hour t) (tm_min t) else [])
                @ (if inactive then '']'' else ''>''))"
proof -
  have v: "valid_fields (fixed_wday t)" using assms by (simp add: valid_fields_def fixed_wday_def)
  have s: "\<And>st ia. strftime_org st ia (fixed_wday t) = Inr ((if ia then ''['' else ''<'')
                @ date_text (tm_year t) (tm_mon t) (tm_mday t)
                @ (if st then '' '' @ time_text (tm_hour t) (tm_min t) else [])
                @ (if ia then '']'' else ''>''))"
    using strftime_org_valid [OF v] weekday_range [of "tm_year t" "tm_mon t" "tm_mday t"]
    by (simp add: fixed_wday_def date_text_def fits_c_int_def)
  show ?thesis
    by (simp add: s date_def local_structtime_def fix_struct_time_wday_valid [OF assms])
qed

lemma inactive_date_struct_time_valid:
  assumes "valid_fields t"
  shows "inactive_date (StructTime t) show_time =
         Inr (''['' @ date_text (tm_year t) (tm_mon t) (tm_mday t)
                @ (if show_time then '' '' @ time_text (tm_hour t) (tm_min t) else [])
                @ '']'')"
proof -
  have v: "valid_fields (fixed_wday t)" using assms by (simp add: valid_fields_def fixed_wday_def)
  have i: "fixed_wday (fixed_wday t) = fixed_wday t" by (simp add: fixed_wday_def)
  have s: "\<And>st. strftime_org st True (fixed_wday t) = Inr (''[''
                @ date_text (tm_year t) (tm_mon t) (tm_mday t)
                @ (if st then '' '' @ time_text (tm_hour t) (tm_min t) else [])
                @ '']'')"
    using strftime_org_valid [OF v, of _ True] weekday_range [of "tm_year t" "tm_mon t" "tm_mday t"]
    by (simp add: fixed_wday_def date_text_def fits_c_int_def)
  show ?thesis
    by (simp add: s inactive_date_def local_structtime_def fix_struct_time_wday_valid [OF assms]
         fix_struct_time_wday_valid [OF v] i)
qed

section \<open>The matcher, piece by piece\<close>

lemma mem_Chars:
  "(s', c') \<in> set (matches (Chars cs) s c) \<longleftrightarrow> (\<exists>x. s = x # s' \<and> x \<in> set cs \<and> c' = c)"
  by (cases s) auto

lemma mem_Eps: "(s', c') \<in> set (matches Eps s c) \<longleftrightarrow> s' = s \<and> c' = c"
  by auto

lemma mem_Seq:
  "(s', c') \<in> set (matches (Seq r1 r2) s c) \<longleftrightarrow>
   (\<exists>s1 c1. (s1, c1) \<in> set (matches r1 s c) \<and> (s', c') \<in> set (matches r2 s1 c1))"
  by auto

lemma mem_Alt:
  "(s', c') \<in> set (matches (Alt r1 r2) s c) \<longleftrightarrow>
   (s', c') \<in> set (matches r1 s c) \<or> (s', c') \<in> set (matches r2 s c)"
  by auto

lemma mem_Opt:
  "(s', c') \<in> set (matches (Opt r) s c) \<longleftrightarrow>
   (s', c') \<in> set (matches r s c) \<or> (s' = s \<and> c' = c)"
  by auto

lemma mem_Group:
  "(s', c') \<in> set (matches (Group n r) s c) \<longleftrightarrow>
   (\<exists>c1. (s', c1) \<in> set (matches r s c) \<and> c' = c1(n \<mapsto> take (length s - length s') s))"
  by auto

lemma mem_Eos:
  "(s', c') \<in> set (matches Eos s c) \<longleftrightarrow> s' = s \<and> c' = c \<and> (s = [] \<or> s = [CHR 0x0A])"
  by auto

lemma mem_lit:
  "(s', c') \<in> set (matches (lit w) s c) \<longleftrightarrow> s = w @ s' \<and> c' = c"
proof (induction w arbitrary: s)
  case Nil
  show ?case by (auto simp: lit_def)
next
  case (Cons x w)
  have "lit (x # w) = Seq (Chars [x]) (lit w)" by (simp add: lit_def)
  then show ?case using Cons by (auto simp: mem_Seq mem_Chars simp del: matches.simps)
qed

lemma mem_alts:
  "(s', c') \<in> set (matches (alts rs) s c) \<longleftrightarrow> (\<exists>r \<in> set rs. (s', c') \<in> set (matches r s c))"
  by (induction rs rule: alts.induct) auto

lemma mem_alts_lit:
  "(s', c') \<in> set (matches (alts (map lit ws)) s c) \<longleftrightarrow> (\<exists>w \<in> set ws. s = w @ s') \<and> c' = c"
  by (auto simp: mem_alts mem_lit simp del: matches.simps)

lemma seqs_Nil: "seqs [] = Eps" by (simp add: seqs_def)
lemma seqs_Cons: "seqs (r # rs) = Seq r (seqs rs)" by (simp add: seqs_def)

lemma mem_digit:
  "(s', c') \<in> set (matches digit s c) \<longleftrightarrow> (\<exists>x. s = x # s' \<and> is_digit x \<and> c' = c)"
  by (simp add: digit_def mem_Chars is_digit_def del: matches.simps)


lemma year_ok_iff:
  "year_ok y \<longleftrightarrow> (\<exists>a b c d. y = [a, b, c, d] \<and> a \<in> set ''12'' \<and> is_digit b \<and> is_digit c \<and> is_digit d)"
  by (induction y rule: year_ok.induct) simp_all

lemma two_ok_iff:
  "two_ok cls x \<longleftrightarrow> (\<exists>a b. x = [a, b] \<and> a \<in> set cls \<and> is_digit b)"
  by (induction cls x rule: two_ok.induct) simp_all

lemma mem_year:
  "(s', c') \<in> set (matches (seqs [Chars ''12'', digit, digit, digit]) s c) \<longleftrightarrow>
   (\<exists>y. year_ok y \<and> s = y @ s' \<and> c' = c)"
  by (auto simp: seqs_Nil seqs_Cons mem_Seq mem_Chars mem_digit mem_Eps year_ok_iff simp del: matches.simps)

lemma mem_two:
  "(s', c') \<in> set (matches (seqs [Chars cls, digit]) s c) \<longleftrightarrow>
   (\<exists>x. two_ok cls x \<and> s = x @ s' \<and> c' = c)"
  by (auto simp: seqs_Nil seqs_Cons mem_Seq mem_Chars mem_digit mem_Eps two_ok_iff simp del: matches.simps)

lemma take_matched: "take (length (x @ s') - length s') (x @ s') = x"
  by simp

lemma mem_Group_text:
  assumes "\<And>s' c'. (s', c') \<in> set (matches r s c) \<longleftrightarrow> (\<exists>x. P x \<and> s = x @ s' \<and> c' = c)"
  shows "(s', c') \<in> set (matches (Group n r) s c) \<longleftrightarrow> (\<exists>x. P x \<and> s = x @ s' \<and> c' = c(n \<mapsto> x))"
  by (auto simp: mem_Group assms simp del: matches.simps)

lemma mem_hour:
  "(s', c') \<in> set (matches
      (Alt (Group k7 (seqs [Chars ''01'', digit]))
           (Group k8 (alts [lit ''20'', lit ''21'', lit ''22'', lit ''23'']))) s c) \<longleftrightarrow>
   (\<exists>hh. s = hh @ s' \<and>
      ((two_ok ''01'' hh \<and> c' = c(k7 \<mapsto> hh)) \<or>
       (hh \<in> set [''20'', ''21'', ''22'', ''23''] \<and> c' = c(k8 \<mapsto> hh))))"
proof -
  have a: "alts [lit ''20'', lit ''21'', lit ''22'', lit ''23''] = alts (map lit [''20'', ''21'', ''22'', ''23''])"
    by simp
  show ?thesis
    unfolding mem_Alt a
    by (subst mem_Group_text [where P = "two_ok ''01''"], simp only: mem_two,
        subst mem_Group_text [where P = "\<lambda>x. x \<in> set [''20'', ''21'', ''22'', ''23'']"],
        simp only: mem_alts_lit, blast, blast)
qed


lemma two_ok_01_not_2x: "two_ok ''01'' hh \<Longrightarrow> hh \<notin> set [''20'', ''21'', ''22'', ''23'']"
  by (auto simp: two_ok_iff)

lemma SINGLE_alt:
  "SINGLE_ORGMODE_TIMESTAMP k =
     Group (k + 1) (seqs
       [Chars ''<['', Group (k + 2) year_re, lit ''-'', Group (k + 3) (two_re ''012345''),
        lit ''-'', Group (k + 4) (two_re ''012345''), lit '' '', Group (k + 5) wday_re,
        lit '' '', Group (k + 6) (hour_re (k + 7) (k + 8)), lit '':'',
        Group (k + 9) (two_re ''012345''), Chars ''>]''])"
  by (simp only: SINGLE_ORGMODE_TIMESTAMP_def year_re_def two_re_def wday_re_def hour_re_def)

lemma mem_G_year:
  "(s', c') \<in> set (matches (Group n year_re) s c) \<longleftrightarrow>
   (\<exists>y. year_ok y \<and> s = y @ s' \<and> c' = c(n \<mapsto> y))"
  unfolding year_re_def by (rule mem_Group_text) (rule mem_year)

lemma mem_G_two:
  "(s', c') \<in> set (matches (Group n (two_re cls)) s c) \<longleftrightarrow>
   (\<exists>x. two_ok cls x \<and> s = x @ s' \<and> c' = c(n \<mapsto> x))"
  unfolding two_re_def by (rule mem_Group_text) (rule mem_two)

lemma mem_G_wday:
  "(s', c') \<in> set (matches (Group n wday_re) s c) \<longleftrightarrow>
   (\<exists>w. w \<in> set WEEKDAYS \<and> s = w @ s' \<and> c' = c(n \<mapsto> w))"
  unfolding wday_re_def by (rule mem_Group_text) (auto simp: mem_alts_lit simp del: matches.simps)

lemma mem_G_hour:
  "(s', c') \<in> set (matches (Group n (hour_re k7 k8)) s c) \<longleftrightarrow>
   (\<exists>hh. s = hh @ s' \<and>
      ((two_ok ''01'' hh \<and> c' = c(k7 \<mapsto> hh, n \<mapsto> hh)) \<or>
       (hh \<in> set [''20'', ''21'', ''22'', ''23''] \<and> c' = c(k8 \<mapsto> hh, n \<mapsto> hh))))"
  unfolding hour_re_def mem_Group mem_hour
  by (auto simp del: matches.simps)

lemmas mem_body = seqs_Cons seqs_Nil mem_Seq mem_Chars mem_lit mem_G_year mem_G_two
  mem_G_wday mem_G_hour mem_Eps

lemma mem_body_D:
  assumes "(s', c') \<in> set (matches (seqs
       [Chars ''<['', Group (k + 2) year_re, lit ''-'', Group (k + 3) (two_re ''012345''),
        lit ''-'', Group (k + 4) (two_re ''012345''), lit '' '', Group (k + 5) wday_re,
        lit '' '', Group (k + 6) (hour_re (k + 7) (k + 8)), lit '':'',
        Group (k + 9) (two_re ''012345''), Chars ''>]'']) s c)"
  shows "\<exists>ob y m d w hh mi cb.
      s = (ob # y @ ''-'' @ m @ ''-'' @ d @ '' '' @ w @ '' '' @ hh @ '':'' @ mi @ [cb]) @ s' \<and>
      ob \<in> set ''<['' \<and> year_ok y \<and> two_ok ''012345'' m \<and> two_ok ''012345'' d \<and>
      w \<in> set WEEKDAYS \<and> two_ok ''012345'' mi \<and> cb \<in> set ''>]'' \<and>
      ((two_ok ''01'' hh \<and>
        c' = c(k + 2 \<mapsto> y, k + 3 \<mapsto> m, k + 4 \<mapsto> d, k + 5 \<mapsto> w, k + 7 \<mapsto> hh, k + 6 \<mapsto> hh, k + 9 \<mapsto> mi)) \<or>
       (hh \<in> set [''20'', ''21'', ''22'', ''23''] \<and>
        c' = c(k + 2 \<mapsto> y, k + 3 \<mapsto> m, k + 4 \<mapsto> d, k + 5 \<mapsto> w, k + 8 \<mapsto> hh, k + 6 \<mapsto> hh, k + 9 \<mapsto> mi)))"
  using assms
  apply (simp only: mem_body)
  apply (elim exE conjE disjE)
   apply hypsubst
   apply (simp only: append.simps append_assoc)
   apply (intro exI conjI)
           apply (rule refl)
          apply assumption+
   apply (rule disjI1)
   apply (rule conjI)
    apply assumption
   apply (rule refl)
  apply hypsubst
  apply (simp only: append.simps append_assoc)
  apply (intro exI conjI)
          apply (rule refl)
         apply assumption+
  apply (rule disjI2)
  apply (rule conjI)
   apply assumption
  apply (rule refl)
  done


lemma SeqI:
  "(s1, c1) \<in> set (matches r s c) \<Longrightarrow> (s', c') \<in> set (matches (seqs rs) s1 c1)
   \<Longrightarrow> (s', c') \<in> set (matches (seqs (r # rs)) s c)"
  by (simp only: seqs_Cons mem_Seq) blast

lemma EpsI: "(s, c) \<in> set (matches (seqs []) s c)"
  by (simp add: seqs_Nil)

lemma CharsI: "x \<in> set cs \<Longrightarrow> (s', c) \<in> set (matches (Chars cs) (x # s') c)"
  by simp

lemma lit1I: "(s', c) \<in> set (matches (lit [x]) (x # s') c)"
  by (simp only: mem_lit) simp

lemma G_yearI: "year_ok y \<Longrightarrow> (s', c(n \<mapsto> y)) \<in> set (matches (Group n year_re) (y @ s') c)"
  by (simp only: mem_G_year) blast

lemma G_twoI: "two_ok cls x \<Longrightarrow> (s', c(n \<mapsto> x)) \<in> set (matches (Group n (two_re cls)) (x @ s') c)"
  by (simp only: mem_G_two) blast

lemma G_wdayI: "w \<in> set WEEKDAYS \<Longrightarrow> (s', c(n \<mapsto> w)) \<in> set (matches (Group n wday_re) (w @ s') c)"
  by (simp only: mem_G_wday) blast

lemma G_hourI1:
  "two_ok ''01'' hh \<Longrightarrow>
   (s', c(k7 \<mapsto> hh, n \<mapsto> hh)) \<in> set (matches (Group n (hour_re k7 k8)) (hh @ s') c)"
  by (simp only: mem_G_hour) blast

lemma G_hourI2:
  "hh \<in> set [''20'', ''21'', ''22'', ''23''] \<Longrightarrow>
   (s', c(k8 \<mapsto> hh, n \<mapsto> hh)) \<in> set (matches (Group n (hour_re k7 k8)) (hh @ s') c)"
  by (simp only: mem_G_hour) blast

lemma mem_body_I1:
  assumes "ob \<in> set ''<[''" "year_ok y" "two_ok ''012345'' m" "two_ok ''012345'' d"
    "w \<in> set WEEKDAYS" "two_ok ''012345'' mi" "cb \<in> set ''>]''" "two_ok ''01'' hh"
  shows "(s', c(k + 2 \<mapsto> y, k + 3 \<mapsto> m, k + 4 \<mapsto> d, k + 5 \<mapsto> w, k + 7 \<mapsto> hh, k + 6 \<mapsto> hh, k + 9 \<mapsto> mi))
    \<in> set (matches (seqs
       [Chars ''<['', Group (k + 2) year_re, lit ''-'', Group (k + 3) (two_re ''012345''),
        lit ''-'', Group (k + 4) (two_re ''012345''), lit '' '', Group (k + 5) wday_re,
        lit '' '', Group (k + 6) (hour_re (k + 7) (k + 8)), lit '':'',
        Group (k + 9) (two_re ''012345''), Chars ''>]''])
        (ob # y @ CHR ''-'' # m @ CHR ''-'' # d @ CHR '' '' # w @ CHR '' '' # hh @ CHR '':'' # mi @ cb # s') c)"
  apply (rule SeqI, rule CharsI, rule assms)
  apply (rule SeqI, rule G_yearI, rule assms)
  apply (rule SeqI, rule lit1I)
  apply (rule SeqI, rule G_twoI, rule assms(3))
  apply (rule SeqI, rule lit1I)
  apply (rule SeqI, rule G_twoI, rule assms(4))
  apply (rule SeqI, rule lit1I)
  apply (rule SeqI, rule G_wdayI, rule assms)
  apply (rule SeqI, rule lit1I)
  apply (rule SeqI, rule G_hourI1, rule assms)
  apply (rule SeqI, rule lit1I)
  apply (rule SeqI, rule G_twoI, rule assms(6))
  apply (rule SeqI, rule CharsI, rule assms)
  apply (rule EpsI)
  done

lemma mem_body_I2:
  assumes "ob \<in> set ''<[''" "year_ok y" "two_ok ''012345'' m" "two_ok ''012345'' d"
    "w \<in> set WEEKDAYS" "two_ok ''012345'' mi" "cb \<in> set ''>]''"
    "hh \<in> set [''20'', ''21'', ''22'', ''23'']"
  shows "(s', c(k + 2 \<mapsto> y, k + 3 \<mapsto> m, k + 4 \<mapsto> d, k + 5 \<mapsto> w, k + 8 \<mapsto> hh, k + 6 \<mapsto> hh, k + 9 \<mapsto> mi))
    \<in> set (matches (seqs
       [Chars ''<['', Group (k + 2) year_re, lit ''-'', Group (k + 3) (two_re ''012345''),
        lit ''-'', Group (k + 4) (two_re ''012345''), lit '' '', Group (k + 5) wday_re,
        lit '' '', Group (k + 6) (hour_re (k + 7) (k + 8)), lit '':'',
        Group (k + 9) (two_re ''012345''), Chars ''>]''])
        (ob # y @ CHR ''-'' # m @ CHR ''-'' # d @ CHR '' '' # w @ CHR '' '' # hh @ CHR '':'' # mi @ cb # s') c)"
  apply (rule SeqI, rule CharsI, rule assms)
  apply (rule SeqI, rule G_yearI, rule assms)
  apply (rule SeqI, rule lit1I)
  apply (rule SeqI, rule G_twoI, rule assms(3))
  apply (rule SeqI, rule lit1I)
  apply (rule SeqI, rule G_twoI, rule assms(4))
  apply (rule SeqI, rule lit1I)
  apply (rule SeqI, rule G_wdayI, rule assms)
  apply (rule SeqI, rule lit1I)
  apply (rule SeqI, rule G_hourI2, rule assms)
  apply (rule SeqI, rule lit1I)
  apply (rule SeqI, rule G_twoI, rule assms(6))
  apply (rule SeqI, rule CharsI, rule assms)
  apply (rule EpsI)
  done

section \<open>The strings the two patterns accept\<close>

lemma hour_ok_len: "hour_ok hh \<Longrightarrow> \<exists>a b. hh = [a, b]"
  by (auto simp: hour_ok_def two_ok_iff)

lemma mem_SINGLE_D:
  assumes "(s', c') \<in> set (matches (SINGLE_ORGMODE_TIMESTAMP k) s c)"
  shows "\<exists>p. ts_ok p \<and> s = ts_text p @ s' \<and> c' = set_groups k p c"
proof -
  from assms obtain c1 where
    b: "(s', c1) \<in> set (matches (seqs
       [Chars ''<['', Group (k + 2) year_re, lit ''-'', Group (k + 3) (two_re ''012345''),
        lit ''-'', Group (k + 4) (two_re ''012345''), lit '' '', Group (k + 5) wday_re,
        lit '' '', Group (k + 6) (hour_re (k + 7) (k + 8)), lit '':'',
        Group (k + 9) (two_re ''012345''), Chars ''>]'']) s c)"
    and c': "c' = c1(k + 1 \<mapsto> take (length s - length s') s)"
    unfolding SINGLE_alt mem_Group by blast
  from mem_body_D [OF b] obtain ob y m d w hh mi cb where
    s: "s = (ob # y @ ''-'' @ m @ ''-'' @ d @ '' '' @ w @ '' '' @ hh @ '':'' @ mi @ [cb]) @ s'"
    and ok: "ob \<in> set ''<[''" "year_ok y" "two_ok ''012345'' m" "two_ok ''012345'' d"
      "w \<in> set WEEKDAYS" "two_ok ''012345'' mi" "cb \<in> set ''>]''"
    and h: "(two_ok ''01'' hh \<and>
        c1 = c(k + 2 \<mapsto> y, k + 3 \<mapsto> m, k + 4 \<mapsto> d, k + 5 \<mapsto> w, k + 7 \<mapsto> hh, k + 6 \<mapsto> hh, k + 9 \<mapsto> mi)) \<or>
       (hh \<in> set [''20'', ''21'', ''22'', ''23''] \<and>
        c1 = c(k + 2 \<mapsto> y, k + 3 \<mapsto> m, k + 4 \<mapsto> d, k + 5 \<mapsto> w, k + 8 \<mapsto> hh, k + 6 \<mapsto> hh, k + 9 \<mapsto> mi))"
    by blast
  let ?p = "\<lparr>p_open = ob, p_year = y, p_month = m, p_day = d, p_wday = w, p_hour = hh,
             p_minute = mi, p_close = cb\<rparr>"
  have t: "ts_text ?p = ob # y @ ''-'' @ m @ ''-'' @ d @ '' '' @ w @ '' '' @ hh @ '':'' @ mi @ [cb]"
    by (simp add: ts_text_def)
  have s2: "s = ts_text ?p @ s'" using s t by simp
  have tk: "take (length s - length s') s = ts_text ?p"
    unfolding s2 by (rule take_matched)
  have hk: "hour_ok hh" using h by (auto simp: hour_ok_def)
  have okp: "ts_ok ?p" using ok hk by (simp add: ts_ok_def)
  have "c' = set_groups k ?p c"
    using h two_ok_01_not_2x [of hh] unfolding c' tk
    by (auto simp: set_groups_def)
  with okp s2 show ?thesis by blast
qed

lemma mem_SINGLE_I:
  assumes "ts_ok p"
  shows "(s', set_groups k p c) \<in> set (matches (SINGLE_ORGMODE_TIMESTAMP k) (ts_text p @ s') c)"
proof -
  let ?body = "seqs
       [Chars ''<['', Group (k + 2) year_re, lit ''-'', Group (k + 3) (two_re ''012345''),
        lit ''-'', Group (k + 4) (two_re ''012345''), lit '' '', Group (k + 5) wday_re,
        lit '' '', Group (k + 6) (hour_re (k + 7) (k + 8)), lit '':'',
        Group (k + 9) (two_re ''012345''), Chars ''>]'']"
  let ?c1 = "c(k + 2 \<mapsto> p_year p, k + 3 \<mapsto> p_month p, k + 4 \<mapsto> p_day p, k + 5 \<mapsto> p_wday p,
       (if two_ok ''01'' (p_hour p) then k + 7 else k + 8) \<mapsto> p_hour p,
       k + 6 \<mapsto> p_hour p, k + 9 \<mapsto> p_minute p)"
  have t: "ts_text p @ s' = p_open p # p_year p @ CHR ''-'' # p_month p @ CHR ''-'' # p_day p
      @ CHR '' '' # p_wday p @ CHR '' '' # p_hour p @ CHR '':'' # p_minute p @ p_close p # s'"
    by (simp add: ts_text_def)
  from assms have ok: "p_open p \<in> set ''<[''" "year_ok (p_year p)" "two_ok ''012345'' (p_month p)"
    "two_ok ''012345'' (p_day p)" "p_wday p \<in> set WEEKDAYS" "two_ok ''012345'' (p_minute p)"
    "p_close p \<in> set ''>]''" and h: "hour_ok (p_hour p)"
    by (simp_all add: ts_ok_def)
  have b: "(s', ?c1) \<in> set (matches ?body (ts_text p @ s') c)"
  proof (cases "two_ok ''01'' (p_hour p)")
    case True
    show ?thesis unfolding t using mem_body_I1 [OF ok True, of s' c k] True by simp
  next
    case False
    with h have h2: "p_hour p \<in> set [''20'', ''21'', ''22'', ''23'']" by (simp add: hour_ok_def)
    show ?thesis unfolding t using mem_body_I2 [OF ok h2, of s' c k] False by simp
  qed
  have "(s', ?c1(k + 1 \<mapsto> take (length (ts_text p @ s') - length s') (ts_text p @ s')))
      \<in> set (matches (SINGLE_ORGMODE_TIMESTAMP k) (ts_text p @ s') c)"
    unfolding SINGLE_alt mem_Group using b by blast
  then show ?thesis unfolding take_matched set_groups_def .
qed

lemma mem_SINGLE_iff:
  "(s', c') \<in> set (matches (SINGLE_ORGMODE_TIMESTAMP k) s c) \<longleftrightarrow>
   (\<exists>p. ts_ok p \<and> s = ts_text p @ s' \<and> c' = set_groups k p c)"
  using mem_SINGLE_D mem_SINGLE_I by blast


lemma weekday_no_space: "w \<in> set WEEKDAYS \<Longrightarrow> CHR '' '' \<notin> set w \<and> w \<noteq> []"
  by (auto simp: WEEKDAYS_def)

lemma split_at_space:
  assumes "CHR '' '' \<notin> set w" "CHR '' '' \<notin> set v" "w @ CHR '' '' # a = v @ CHR '' '' # b"
  shows "w = v \<and> a = b"
  using assms
proof (induction w arbitrary: v)
  case Nil
  then show ?case by (cases v) auto
next
  case (Cons x w)
  then show ?case by (cases v) auto
qed

lemma ts_text_unique:
  assumes p: "ts_ok p" and q: "ts_ok q" and e: "ts_text p @ a = ts_text q @ b"
  shows "p = q \<and> a = b"
proof -
  from p obtain y1 y2 y3 y4 m1 m2 d1 d2 h1 h2 i1 i2 where
    P: "p_year p = [y1, y2, y3, y4]" "p_month p = [m1, m2]" "p_day p = [d1, d2]"
       "p_hour p = [h1, h2]" "p_minute p = [i1, i2]"
    unfolding ts_ok_def year_ok_iff two_ok_iff using hour_ok_len [of "p_hour p"] by blast
  from q obtain y1' y2' y3' y4' m1' m2' d1' d2' h1' h2' i1' i2' where
    Q: "p_year q = [y1', y2', y3', y4']" "p_month q = [m1', m2']" "p_day q = [d1', d2']"
       "p_hour q = [h1', h2']" "p_minute q = [i1', i2']"
    unfolding ts_ok_def year_ok_iff two_ok_iff using hour_ok_len [of "p_hour q"] by blast
  from p q have w: "CHR '' '' \<notin> set (p_wday p)" "CHR '' '' \<notin> set (p_wday q)"
    using weekday_no_space by (simp_all add: ts_ok_def)
  from e have 1: "p_open p = p_open q" "p_year p = p_year q" "p_month p = p_month q"
      "p_day p = p_day q"
    and 2: "p_wday p @ CHR '' '' # (p_hour p @ '':'' @ p_minute p @ [p_close p] @ a)
          = p_wday q @ CHR '' '' # (p_hour q @ '':'' @ p_minute q @ [p_close q] @ b)"
    by (simp_all add: ts_text_def P Q)
  from split_at_space [OF w 2] have 3: "p_wday p = p_wday q"
    and 4: "p_hour p @ '':'' @ p_minute p @ [p_close p] @ a = p_hour q @ '':'' @ p_minute q @ [p_close q] @ b"
    by simp_all
  from 4 have 5: "p_hour p = p_hour q" "p_minute p = p_minute q" "p_close p = p_close q" "a = b"
    by (simp_all add: P Q)
  have "p = q" using 1 3 5 by (intro ts_parts.equality) simp_all
  with 5 show ?thesis by simp
qed

lemma set_groups_outside: "n \<le> k \<or> k + 9 < n \<Longrightarrow> set_groups k p c n = c n"
  by (auto simp: set_groups_def)

lemma set_groups_at:
  "set_groups k p c (k + 1) = Some (ts_text p)"
  "set_groups k p c (k + 2) = Some (p_year p)"
  "set_groups k p c (k + 3) = Some (p_month p)"
  "set_groups k p c (k + 4) = Some (p_day p)"
  "set_groups k p c (k + 6) = Some (p_hour p)"
  "set_groups k p c (k + 9) = Some (p_minute p)"
  by (simp_all add: set_groups_def)

lemma re_match_None: "re_match r s = None \<longleftrightarrow> set (matches r s (\<lambda>n. None)) = {}"
  by (auto simp: re_match_def split: list.splits)

lemma re_match_Some_D:
  "re_match r s = Some g \<Longrightarrow> \<exists>s'. (s', g) \<in> set (matches r s (\<lambda>n. None))"
  by (auto simp: re_match_def split: list.splits)

lemma re_match_Some_I:
  assumes "x \<in> set (matches r s (\<lambda>n. None))"
    and "\<And>s' c'. (s', c') \<in> set (matches r s (\<lambda>n. None)) \<Longrightarrow> c' = g"
  shows "re_match r s = Some g"
proof (cases "matches r s (\<lambda>n. None)")
  case Nil
  with assms(1) show ?thesis by simp
next
  case (Cons a xs)
  obtain s' c' where a: "a = (s', c')" by (cases a)
  with Cons assms(2) [of s' c'] have "c' = g" by simp
  with Cons a show ?thesis by (simp add: re_match_def)
qed

lemma mem_TS:
  "(s', c') \<in> set (matches ORGMODE_TIMESTAMP_REGEX s c) \<longleftrightarrow>
   (\<exists>p. ts_ok p \<and> s = ts_text p @ s' \<and> newline_or_end s' \<and> c' = set_groups 0 p c)"
  unfolding ORGMODE_TIMESTAMP_REGEX_def mem_Seq mem_Eos mem_SINGLE_iff newline_or_end_def
  by blast

lemma re_match_TS_I:
  assumes "ts_ok p" "newline_or_end nl"
  shows "re_match ORGMODE_TIMESTAMP_REGEX (ts_text p @ nl) = Some (set_groups 0 p (\<lambda>n. None))"
proof (rule re_match_Some_I)
  show "(nl, set_groups 0 p (\<lambda>n. None)) \<in> set (matches ORGMODE_TIMESTAMP_REGEX (ts_text p @ nl) (\<lambda>n. None))"
    unfolding mem_TS using assms by blast
next
  fix s' c'
  assume "(s', c') \<in> set (matches ORGMODE_TIMESTAMP_REGEX (ts_text p @ nl) (\<lambda>n. None))"
  then obtain q where q: "ts_ok q" "ts_text p @ nl = ts_text q @ s'" "c' = set_groups 0 q (\<lambda>n. None)"
    unfolding mem_TS by blast
  from ts_text_unique [OF assms(1) q(1) q(2)] q(3) show "c' = set_groups 0 p (\<lambda>n. None)" by simp
qed

lemma re_match_TS_D:
  assumes "re_match ORGMODE_TIMESTAMP_REGEX s = Some g"
  shows "\<exists>p nl. ts_ok p \<and> newline_or_end nl \<and> s = ts_text p @ nl \<and> g = set_groups 0 p (\<lambda>n. None)"
  using re_match_Some_D [OF assms] unfolding mem_TS by blast

lemma re_match_TS_accepts:
  "re_match ORGMODE_TIMESTAMP_REGEX s \<noteq> None \<longleftrightarrow>
   (\<exists>p nl. ts_ok p \<and> newline_or_end nl \<and> s = ts_text p @ nl)"
  using re_match_TS_D [of s] re_match_TS_I by (cases "re_match ORGMODE_TIMESTAMP_REGEX s") fastforce+

lemma mem_Eos_nl:
  "(s', c') \<in> set (matches Eos s c) \<longleftrightarrow> s' = s \<and> c' = c \<and> newline_or_end s"
  by (auto simp: newline_or_end_def)

lemma mem_dash_group:
  "(s', c') \<in> set (matches (Opt (Group n (lit ''-''))) s c) \<longleftrightarrow>
   (s = ''-'' @ s' \<and> c' = c(n \<mapsto> ''-'')) \<or> (s' = s \<and> c' = c)"
  unfolding mem_Opt mem_Group mem_lit by auto

lemma mem_RANGE_D:
  assumes "(s', c') \<in> set (matches ORGMODE_TIMESTAMP_RANGE_REGEX s c)"
  shows "\<exists>p q. ts_ok p \<and> ts_ok q \<and> newline_or_end s' \<and>
      ((s = ts_text p @ ''--'' @ ts_text q @ s' \<and>
        c' = set_groups 10 q ((set_groups 0 p c)(10 \<mapsto> ''-''))) \<or>
       (s = ts_text p @ ''-'' @ ts_text q @ s' \<and>
        c' = set_groups 10 q (set_groups 0 p c)))"
proof -
  from assms obtain p q s1 s2 s3 c3 where
    p: "ts_ok p" "s = ts_text p @ s1" and d1: "s1 = ''-'' @ s2"
    and d2: "(s2 = ''-'' @ s3 \<and> c3 = (set_groups 0 p c)(10 \<mapsto> ''-'')) \<or> (s3 = s2 \<and> c3 = set_groups 0 p c)"
    and q: "ts_ok q" "s3 = ts_text q @ s'" "c' = set_groups 10 q c3" and nl: "newline_or_end s'"
    unfolding ORGMODE_TIMESTAMP_RANGE_REGEX_def seqs_Cons seqs_Nil mem_Seq mem_SINGLE_iff
      mem_lit mem_dash_group mem_Eos_nl mem_Eps
    by (elim exE conjE) (hypsubst, blast)
  from d2 show ?thesis
  proof
    assume "s2 = ''-'' @ s3 \<and> c3 = (set_groups 0 p c)(10 \<mapsto> ''-'')"
    with p d1 q nl show ?thesis by auto
  next
    assume "s3 = s2 \<and> c3 = set_groups 0 p c"
    with p d1 q nl show ?thesis by auto
  qed
qed


lemma dashI1: "(s', c(n \<mapsto> ''-'')) \<in> set (matches (Opt (Group n (lit ''-''))) (CHR ''-'' # s') c)"
  unfolding mem_dash_group by simp

lemma dashI2: "(s, c) \<in> set (matches (Opt (Group n (lit ''-''))) s c)"
  unfolding mem_dash_group by simp

lemma EosI: "newline_or_end s \<Longrightarrow> (s, c) \<in> set (matches Eos s c)"
  unfolding mem_Eos_nl by simp

lemma mem_RANGE_I2:
  assumes "ts_ok p" "ts_ok q" "newline_or_end nl"
  shows "(nl, set_groups 10 q ((set_groups 0 p c)(10 \<mapsto> ''-'')))
    \<in> set (matches ORGMODE_TIMESTAMP_RANGE_REGEX (ts_text p @ CHR ''-'' # CHR ''-'' # ts_text q @ nl) c)"
  unfolding ORGMODE_TIMESTAMP_RANGE_REGEX_def
  apply (rule SeqI, rule mem_SINGLE_I, rule assms)
  apply (rule SeqI, rule lit1I)
  apply (rule SeqI, rule dashI1)
  apply (rule SeqI, rule mem_SINGLE_I, rule assms)
  apply (rule SeqI, rule EosI, rule assms)
  apply (rule EpsI)
  done

lemma mem_RANGE_I1:
  assumes "ts_ok p" "ts_ok q" "newline_or_end nl"
  shows "(nl, set_groups 10 q (set_groups 0 p c))
    \<in> set (matches ORGMODE_TIMESTAMP_RANGE_REGEX (ts_text p @ CHR ''-'' # ts_text q @ nl) c)"
  unfolding ORGMODE_TIMESTAMP_RANGE_REGEX_def
  apply (rule SeqI, rule mem_SINGLE_I, rule assms)
  apply (rule SeqI, rule lit1I)
  apply (rule SeqI, rule dashI2)
  apply (rule SeqI, rule mem_SINGLE_I, rule assms)
  apply (rule SeqI, rule EosI, rule assms)
  apply (rule EpsI)
  done

lemma ts_text_Cons: "ts_text p = p_open p # tl (ts_text p)"
  by (simp add: ts_text_def)

lemma ts_open_not_dash: "ts_ok p \<Longrightarrow> p_open p \<noteq> CHR ''-''"
  by (auto simp: ts_ok_def)

lemma range_text_unique:
  assumes "ts_ok p" "ts_ok q" "dash_ok d" "ts_ok p'" "ts_ok q'" "dash_ok d'"
    and e: "ts_text p @ d @ ts_text q @ a = ts_text p' @ d' @ ts_text q' @ b"
  shows "p = p' \<and> q = q' \<and> d = d' \<and> a = b"
proof -
  from ts_text_unique [OF assms(1) assms(4) e]
  have 1: "p = p'" and 2: "d @ ts_text q @ a = d' @ ts_text q' @ b" by simp_all
  have 3: "d = d'"
    using 2 assms(3,6) ts_open_not_dash [OF assms(2)] ts_open_not_dash [OF assms(5)]
    by (subst (asm) ts_text_Cons [of q], subst (asm) ts_text_Cons [of q'])
       (auto simp: dash_ok_def)
  with 2 have "ts_text q @ a = ts_text q' @ b" by simp
  from ts_text_unique [OF assms(2) assms(5) this] 1 3 show ?thesis by simp
qed

lemma re_match_RANGE_D:
  assumes "re_match ORGMODE_TIMESTAMP_RANGE_REGEX s = Some g"
  shows "\<exists>p q d nl. ts_ok p \<and> ts_ok q \<and> dash_ok d \<and> newline_or_end nl \<and>
           s = ts_text p @ d @ ts_text q @ nl \<and>
           g 1 = Some (ts_text p) \<and> g 11 = Some (ts_text q)"
proof -
  from re_match_Some_D [OF assms] obtain s' where
    "(s', g) \<in> set (matches ORGMODE_TIMESTAMP_RANGE_REGEX s (\<lambda>n. None))" by blast
  from mem_RANGE_D [OF this] obtain p q where pq: "ts_ok p" "ts_ok q" "newline_or_end s'"
    and c: "(s = ts_text p @ ''--'' @ ts_text q @ s' \<and>
        g = set_groups 10 q ((set_groups 0 p (\<lambda>n. None))(10 \<mapsto> ''-''))) \<or>
       (s = ts_text p @ ''-'' @ ts_text q @ s' \<and>
        g = set_groups 10 q (set_groups 0 p (\<lambda>n. None)))" by blast
  have g11: "g 11 = Some (ts_text q)"
    using c set_groups_at(1) [of 10 q] by auto
  have g1: "g 1 = Some (ts_text p)"
    using c set_groups_at(1) [of 0 p] by (auto simp: set_groups_outside)
  have "dash_ok ''--''" "dash_ok ''-''" by (simp_all add: dash_ok_def)
  with c have "\<exists>d. dash_ok d \<and> s = ts_text p @ d @ ts_text q @ s'"
    by blast
  with pq g1 g11 show ?thesis by blast
qed

lemma re_match_RANGE_I:
  assumes "ts_ok p" "ts_ok q" "dash_ok d" "newline_or_end nl"
  shows "\<exists>g. re_match ORGMODE_TIMESTAMP_RANGE_REGEX (ts_text p @ d @ ts_text q @ nl) = Some g \<and>
           g 1 = Some (ts_text p) \<and> g 11 = Some (ts_text q)"
proof -
  let ?s = "ts_text p @ d @ ts_text q @ nl"
  have "\<exists>x. x \<in> set (matches ORGMODE_TIMESTAMP_RANGE_REGEX ?s (\<lambda>n. None))"
  proof (cases "d = ''-''")
    case True
    then show ?thesis using mem_RANGE_I1 [OF assms(1,2,4), of "\<lambda>n. None"] by auto
  next
    case False
    with assms(3) have "d = ''--''" by (simp add: dash_ok_def)
    then show ?thesis using mem_RANGE_I2 [OF assms(1,2,4), of "\<lambda>n. None"] by auto
  qed
  then have "set (matches ORGMODE_TIMESTAMP_RANGE_REGEX ?s (\<lambda>n. None)) \<noteq> {}"
    by auto
  then obtain g where g: "re_match ORGMODE_TIMESTAMP_RANGE_REGEX ?s = Some g"
    using re_match_None [of ORGMODE_TIMESTAMP_RANGE_REGEX ?s] by auto
  from re_match_RANGE_D [OF g] obtain p' q' d' nl' where
    x: "ts_ok p'" "ts_ok q'" "dash_ok d'" "?s = ts_text p' @ d' @ ts_text q' @ nl'"
      "g 1 = Some (ts_text p')" "g 11 = Some (ts_text q')" by blast
  from range_text_unique [OF assms(1,2,3) x(1,2,3,4)] x(5,6) g show ?thesis by simp
qed

lemma single_not_range:
  assumes "re_match ORGMODE_TIMESTAMP_REGEX s \<noteq> None"
  shows "re_match ORGMODE_TIMESTAMP_RANGE_REGEX s = None"
proof (rule ccontr)
  assume "re_match ORGMODE_TIMESTAMP_RANGE_REGEX s \<noteq> None"
  then obtain g where "re_match ORGMODE_TIMESTAMP_RANGE_REGEX s = Some g" by blast
  from re_match_RANGE_D [OF this] obtain p q d nl where
    r: "ts_ok p" "ts_ok q" "dash_ok d" "s = ts_text p @ d @ ts_text q @ nl" by blast
  from assms obtain p' nl' where t: "ts_ok p'" "newline_or_end nl'" "s = ts_text p' @ nl'"
    unfolding re_match_TS_accepts by blast
  from r(4) t(3) have "ts_text p @ (d @ ts_text q @ nl) = ts_text p' @ nl'" by simp
  from ts_text_unique [OF r(1) t(1) this] have "d @ ts_text q @ nl = nl'" by simp
  with r(3) t(2) show False
    by (subst (asm) ts_text_Cons [of q]) (auto simp: dash_ok_def newline_or_end_def)
qed

lemma is_digit_cases:
  "is_digit x \<longleftrightarrow> x \<in> set ''0123456789''"
  by (simp add: is_digit_def)

lemma in12_digit: "a \<in> set ''12'' \<Longrightarrow> is_digit a"
  by (auto simp: is_digit_def)

lemma in01_digit: "a \<in> set ''01'' \<Longrightarrow> is_digit a"
  by (auto simp: is_digit_def)

lemma in012345_digit: "a \<in> set ''012345'' \<Longrightarrow> is_digit a"
  by (auto simp: is_digit_def)

lemma year_ok_digits: "year_ok y \<Longrightarrow> y \<noteq> [] \<and> list_all is_digit y"
  by (auto simp: year_ok_iff in12_digit)

lemma two_ok_digits: "two_ok ''012345'' x \<Longrightarrow> x \<noteq> [] \<and> list_all is_digit x"
  by (auto simp: two_ok_iff in012345_digit)

lemma hour_ok_digits: "hour_ok x \<Longrightarrow> x \<noteq> [] \<and> list_all is_digit x"
proof -
  have "is_digit CHR ''0''" "is_digit CHR ''1''" "is_digit CHR ''2''" "is_digit CHR ''3''"
    by (simp_all add: is_digit_def)
  then show "hour_ok x \<Longrightarrow> x \<noteq> [] \<and> list_all is_digit x"
    by (auto simp: hour_ok_def two_ok_iff in01_digit)
qed

lemma parse_ts:
  assumes "ts_ok p" "newline_or_end nl"
  shows "orgmode_timestamp_to_datetime (ts_text p @ nl) =
         datetime_new (digits_val (p_year p)) (digits_val (p_month p)) (digits_val (p_day p))
                      (digits_val (p_hour p)) (digits_val (p_minute p)) 0"
proof -
  from assms(1) have d: "year_ok (p_year p)" "two_ok ''012345'' (p_month p)"
    "two_ok ''012345'' (p_day p)" "hour_ok (p_hour p)" "two_ok ''012345'' (p_minute p)"
    by (simp_all add: ts_ok_def)
  have g: "set_groups 0 p (\<lambda>n. None) 2 = Some (p_year p)"
    "set_groups 0 p (\<lambda>n. None) 3 = Some (p_month p)"
    "set_groups 0 p (\<lambda>n. None) 4 = Some (p_day p)"
    "set_groups 0 p (\<lambda>n. None) 6 = Some (p_hour p)"
    "set_groups 0 p (\<lambda>n. None) 9 = Some (p_minute p)"
    by (simp_all add: set_groups_def)
  show ?thesis
    using year_ok_digits [OF d(1)] two_ok_digits [OF d(2)] two_ok_digits [OF d(3)]
      hour_ok_digits [OF d(4)] two_ok_digits [OF d(5)]
    by (simp add: orgmode_timestamp_to_datetime_def re_match_TS_I [OF assms] int_group_def
          py_int_def bind_exn_def g)
qed

lemma parse_reject:
  assumes "re_match ORGMODE_TIMESTAMP_REGEX s = None"
  shows "orgmode_timestamp_to_datetime s = Inl (TimestampParseException (Text (parse_error_text s)))"
  using assms by (simp add: orgmode_timestamp_to_datetime_def)

lemma datetime_new_not_tpe: "datetime_new y m d hh mm ss \<noteq> Inl (TimestampParseException v)"
  by (simp add: datetime_new_def)

lemma weekday_len: "w \<in> set WEEKDAYS \<Longrightarrow> length w = 2 \<or> length w = 3"
  by (auto simp: WEEKDAYS_def)

lemma ts_text_length:
  assumes "ts_ok p"
  shows "21 \<le> length (ts_text p) \<and> length (ts_text p) \<le> 22"
proof -
  from assms obtain y1 y2 y3 y4 m1 m2 d1 d2 h1 h2 i1 i2 where
    P: "p_year p = [y1, y2, y3, y4]" "p_month p = [m1, m2]" "p_day p = [d1, d2]"
       "p_hour p = [h1, h2]" "p_minute p = [i1, i2]"
    unfolding ts_ok_def year_ok_iff two_ok_iff using hour_ok_len [of "p_hour p"] by blast
  from assms have "length (p_wday p) = 2 \<or> length (p_wday p) = 3"
    using weekday_len by (simp add: ts_ok_def)
  then show ?thesis by (auto simp: ts_text_def P)
qed

lemma digit_not_dash: "is_digit x \<Longrightarrow> x \<noteq> CHR ''-''"
  by (auto simp: is_digit_def)

lemma ts_text_head:
  assumes "ts_ok p"
  shows "(ts_text p @ r) ! 5 = CHR ''-'' \<and> (\<forall>i<5. (ts_text p @ r) ! i \<noteq> CHR ''-'')"
proof -
  from assms obtain y1 y2 y3 y4 where
    P: "p_year p = [y1, y2, y3, y4]" and "y1 \<in> set ''12''" "is_digit y2" "is_digit y3" "is_digit y4"
    unfolding ts_ok_def year_ok_iff by blast
  then have d: "y1 \<noteq> CHR ''-''" "y2 \<noteq> CHR ''-''" "y3 \<noteq> CHR ''-''" "y4 \<noteq> CHR ''-''"
    using digit_not_dash in12_digit by blast+
  from assms have o: "p_open p \<noteq> CHR ''-''" by (rule ts_open_not_dash)
  have n: "\<And>i. i < 5 \<Longrightarrow> i = 0 \<or> i = 1 \<or> i = 2 \<or> i = 3 \<or> i = (4::nat)" by arith
  have t: "ts_text p @ r = p_open p # y1 # y2 # y3 # y4 # CHR ''-'' # tl (tl (tl (tl (tl (tl (ts_text p @ r))))))"
    by (simp add: ts_text_def P)
  show ?thesis
  proof (intro conjI allI impI)
    show "(ts_text p @ r) ! 5 = CHR ''-''" by (subst t) simp
  next
    fix i :: nat assume "i < 5"
    from n [OF this] show "(ts_text p @ r) ! i \<noteq> CHR ''-''"
      using d o by (subst t) auto
  qed
qed

lemma no_leading_text:
  assumes p: "ts_ok p" and q: "ts_ok q" and e: "pre @ ts_text p @ a = ts_text q @ b"
    and l: "length pre \<le> 5"
  shows "pre = []"
proof (rule ccontr)
  assume n: "pre \<noteq> []"
  then have 0: "0 < length pre" by simp
  have "(pre @ ts_text p @ a) ! 5 = (ts_text p @ a) ! (5 - length pre)"
    using l by (simp add: nth_append ts_text_def)
  moreover have "5 - length pre < 5" using 0 by arith
  ultimately have "(pre @ ts_text p @ a) ! 5 \<noteq> CHR ''-''"
    using ts_text_head [OF p, of a] by simp
  moreover have "(ts_text q @ b) ! 5 = CHR ''-''" using ts_text_head [OF q, of b] by simp
  ultimately show False using e by simp
qed

lemma re_match_RANGE_accepts:
  "re_match ORGMODE_TIMESTAMP_RANGE_REGEX s \<noteq> None \<longleftrightarrow>
   (\<exists>p q d nl. ts_ok p \<and> ts_ok q \<and> dash_ok d \<and> newline_or_end nl \<and>
      s = ts_text p @ d @ ts_text q @ nl)"
proof
  assume "re_match ORGMODE_TIMESTAMP_RANGE_REGEX s \<noteq> None"
  then obtain g where "re_match ORGMODE_TIMESTAMP_RANGE_REGEX s = Some g" by blast
  from re_match_RANGE_D [OF this] show "\<exists>p q d nl. ts_ok p \<and> ts_ok q \<and> dash_ok d \<and>
      newline_or_end nl \<and> s = ts_text p @ d @ ts_text q @ nl" by blast
next
  assume "\<exists>p q d nl. ts_ok p \<and> ts_ok q \<and> dash_ok d \<and> newline_or_end nl \<and>
      s = ts_text p @ d @ ts_text q @ nl"
  then obtain p q d nl where x: "ts_ok p" "ts_ok q" "dash_ok d" "newline_or_end nl"
    "s = ts_text p @ d @ ts_text q @ nl" by blast
  from re_match_RANGE_I [OF x(1-4)] x(5) show "re_match ORGMODE_TIMESTAMP_RANGE_REGEX s \<noteq> None"
    by auto
qed

lemma ts_ok_brackets:
  "ts_ok p \<Longrightarrow> ob \<in> set ''<['' \<Longrightarrow> cb \<in> set ''>]'' \<Longrightarrow> ts_ok (p\<lparr>p_open := ob, p_close := cb\<rparr>)"
  by (simp add: ts_ok_def)

lemma TS_anchored:
  assumes "ts_ok p"
  shows "(re_match ORGMODE_TIMESTAMP_REGEX (pre @ ts_text p @ post) \<noteq> None) =
         (pre = [] \<and> newline_or_end post)"
proof
  assume "re_match ORGMODE_TIMESTAMP_REGEX (pre @ ts_text p @ post) \<noteq> None"
  then obtain q nl where q: "ts_ok q" "newline_or_end nl" "pre @ ts_text p @ post = ts_text q @ nl"
    unfolding re_match_TS_accepts by blast
  from q(3) have "length pre + length (ts_text p) + length post = length (ts_text q) + length nl"
    by (metis length_append add.assoc)
  with ts_text_length [OF assms] ts_text_length [OF q(1)] q(2) have "length pre \<le> 5"
    by (auto simp: newline_or_end_def)
  from no_leading_text [OF assms q(1) q(3) this] have pre: "pre = []" .
  with q(3) have "ts_text p @ post = ts_text q @ nl" by simp
  from ts_text_unique [OF assms q(1) this] q(2) pre show "pre = [] \<and> newline_or_end post" by simp
next
  assume "pre = [] \<and> newline_or_end post"
  then show "re_match ORGMODE_TIMESTAMP_REGEX (pre @ ts_text p @ post) \<noteq> None"
    using re_match_TS_I [OF assms, of post] by simp
qed

lemma RANGE_anchored:
  assumes "ts_ok p" "ts_ok q" "dash_ok d"
  shows "(re_match ORGMODE_TIMESTAMP_RANGE_REGEX (pre @ ts_text p @ d @ ts_text q @ post) \<noteq> None) =
         (pre = [] \<and> newline_or_end post)"
proof
  assume "re_match ORGMODE_TIMESTAMP_RANGE_REGEX (pre @ ts_text p @ d @ ts_text q @ post) \<noteq> None"
  then obtain p' q' d' nl where x: "ts_ok p'" "ts_ok q'" "dash_ok d'" "newline_or_end nl"
    "pre @ ts_text p @ d @ ts_text q @ post = ts_text p' @ d' @ ts_text q' @ nl"
    unfolding re_match_RANGE_accepts by blast
  from x(5) have "length pre + length (ts_text p) + length d + length (ts_text q) + length post
      = length (ts_text p') + length d' + length (ts_text q') + length nl"
    by (metis length_append add.assoc)
  with ts_text_length [OF assms(1)] ts_text_length [OF assms(2)] ts_text_length [OF x(1)]
    ts_text_length [OF x(2)] x(3,4) assms(3)
  have "length pre \<le> 5"
    by (auto simp: newline_or_end_def dash_ok_def)
  from no_leading_text [OF assms(1) x(1) x(5) this] have pre: "pre = []" .
  with x(5) have "ts_text p @ d @ ts_text q @ post = ts_text p' @ d' @ ts_text q' @ nl" by simp
  from range_text_unique [OF assms x(1-3) this] x(4) pre show "pre = [] \<and> newline_or_end post"
    by simp
next
  assume "pre = [] \<and> newline_or_end post"
  then show "re_match ORGMODE_TIMESTAMP_RANGE_REGEX (pre @ ts_text p @ d @ ts_text q @ post) \<noteq> None"
    using re_match_RANGE_I [OF assms, of post] by auto
qed

lemmas ts_eval = ts_ok_def ts_text_def hour_ok_def is_digit_def WEEKDAYS_def dash_ok_def
  newline_or_end_def

section \<open>Bracket kinds\<close>

text \<open>
  Claim C5 as stated fails: the pattern has the class \<open>[<\[]\<close> for the opening and
  the class \<open>[>\]]\<close> for the closing bracket and nothing that ties them together, so a
  mixed pair is accepted, and so is a range with one active and one inactive endpoint.
\<close>

theorem bracket_kinds_counterexample:
  "re_match ORGMODE_TIMESTAMP_REGEX ''<2019-11-05 Tue 23:59]'' \<noteq> None \<and>
   re_match ORGMODE_TIMESTAMP_RANGE_REGEX
     ''<2019-11-05 Tue 23:00>--[2019-11-05 Tue 23:30]'' \<noteq> None"
  by code_simp

text \<open>
  Claim C5, amended. The single-timestamp pattern (as used with \<open>re.match\<close>) accepts
  exactly the texts \<open>ts_text p\<close> with \<open>ts_ok p\<close>, optionally followed by one newline,
  and the range pattern exactly two such texts joined by one or two dashes; \<open>ts_ok\<close>
  asks the opening bracket to be \<open><\<close> or \<open>[\<close> and the closing one to be \<open>>\<close> or
  \<open>]\<close>, each on its own: replacing either bracket of an accepted text by the other
  kind gives an accepted text again.
\<close>

theorem bracket_kinds_independent:
  "(re_match ORGMODE_TIMESTAMP_REGEX s \<noteq> None \<longleftrightarrow>
      (\<exists>p nl. ts_ok p \<and> newline_or_end nl \<and> s = ts_text p @ nl))
   \<and> (re_match ORGMODE_TIMESTAMP_RANGE_REGEX s \<noteq> None \<longleftrightarrow>
      (\<exists>p q d nl. ts_ok p \<and> ts_ok q \<and> dash_ok d \<and> newline_or_end nl \<and>
         s = ts_text p @ d @ ts_text q @ nl))
   \<and> (ts_ok p \<longrightarrow> p_open p \<in> set ''<['' \<and> p_close p \<in> set ''>]'' \<and>
        (\<forall>ob \<in> set ''<[''. \<forall>cb \<in> set ''>]''. ts_ok (p\<lparr>p_open := ob, p_close := cb\<rparr>)))"
  using re_match_TS_accepts [of s] re_match_RANGE_accepts [of s] ts_ok_brackets [of p]
  by (simp add: ts_ok_def)

theorem bracket_kinds_independent_witness:
  "ts_ok (
     \<lparr>p_open = CHR ''['', p_year = ''1980'', p_month = ''12'', p_day = ''31'',
      p_wday = ''Mi'', p_hour = ''09'', p_minute = ''05'', p_close = CHR ''>''\<rparr>) \<and>
   re_match ORGMODE_TIMESTAMP_REGEX ''[1980-12-31 Mi 09:05>'' \<noteq> None \<and>
   ts_ok ((
     \<lparr>p_open = CHR ''['', p_year = ''1980'', p_month = ''12'', p_day = ''31'',
      p_wday = ''Mi'', p_hour = ''09'', p_minute = ''05'', p_close = CHR ''>''\<rparr>)\<lparr>p_open := CHR ''<'', p_close := CHR '']''\<rparr>)"
proof -
  have ok: "ts_ok (
     \<lparr>p_open = CHR ''['', p_year = ''1980'', p_month = ''12'', p_day = ''31'',
      p_wday = ''Mi'', p_hour = ''09'', p_minute = ''05'', p_close = CHR ''>''\<rparr>)" by (simp add: ts_eval)
  have t: "''[1980-12-31 Mi 09:05>'' = ts_text (
     \<lparr>p_open = CHR ''['', p_year = ''1980'', p_month = ''12'', p_day = ''31'',
      p_wday = ''Mi'', p_hour = ''09'', p_minute = ''05'', p_close = CHR ''>''\<rparr>) @ []" by (simp add: ts_eval)
  have n: "newline_or_end []" by (simp add: ts_eval)
  from bracket_kinds_independent [of "''[1980-12-31 Mi 09:05>''" "
     \<lparr>p_open = CHR ''['', p_year = ''1980'', p_month = ''12'', p_day = ''31'',
      p_wday = ''Mi'', p_hour = ''09'', p_minute = ''05'', p_close = CHR ''>''\<rparr>"] ok t n
  have "re_match ORGMODE_TIMESTAMP_REGEX ''[1980-12-31 Mi 09:05>'' \<noteq> None" by blast
  moreover from bracket_kinds_independent [of "[]" "
     \<lparr>p_open = CHR ''['', p_year = ''1980'', p_month = ''12'', p_day = ''31'',
      p_wday = ''Mi'', p_hour = ''09'', p_minute = ''05'', p_close = CHR ''>''\<rparr>"] ok
  have "ts_ok ((
     \<lparr>p_open = CHR ''['', p_year = ''1980'', p_month = ''12'', p_day = ''31'',
      p_wday = ''Mi'', p_hour = ''09'', p_minute = ''05'', p_close = CHR ''>''\<rparr>)\<lparr>p_open := CHR ''<'', p_close := CHR '']''\<rparr>)" by simp
  ultimately show ?thesis using ok by simp
qed

section \<open>Out-of-range calendar components\<close>

text \<open>
  Claim C6: a bracketed time-stamp that passes the grammar with components that the date
  library rejects should raise TimestampParseException. The code calls
  \<open>datetime.datetime\<close> outside any \<open>try\<close>, so the ValueError escapes as it is: at
  month 13 the function raises ValueError.
\<close>

theorem orgmode_timestamp_month_13_raises_ValueError:
  "orgmode_timestamp_to_datetime ''<2019-13-01 Tue 10:00>'' = Inl ValueError"
  by code_simp

section \<open>Strings of a length outside the table\<close>

text \<open>
  Claim C7: a string whose length is not in the table should raise
  TimestampParseException. In the code no branch of the \<open>if\<close> chain returns or raises
  for such a length, and control reaches \<open>assert(False)\<close>: the functions raise
  AssertionError, whatever \<open>strptime\<close> and the time-zone conversion do.
\<close>

theorem unknown_length_raises_AssertionError:
  "datetimetupeliso8601 strptime ''2011-11-02'' = Inl AssertionError \<and>
   datetupelutctimestamp strptime utc_to_local ''foobar'' = Inl AssertionError"
  by (simp add: datetimetupeliso8601_def datetupelutctimestamp_def)

section \<open>Anchoring of the patterns\<close>

text \<open>
  Claim C8 as stated fails on both counts: \<open>re.match\<close> only matches at the start of
  the string, so text before a well-formed time-stamp or range makes the match fail; and
  \<open>$\<close> also holds before a final newline, so one trailing newline is accepted.
\<close>

theorem anchoring_counterexample:
  "re_match ORGMODE_TIMESTAMP_REGEX ''x<2019-11-05 Tue 23:59>'' = None \<and>
   re_match ORGMODE_TIMESTAMP_RANGE_REGEX
     ''x<2019-11-05 Tue 23:00>--<2019-11-05 Tue 23:30>'' = None \<and>
   re_match ORGMODE_TIMESTAMP_REGEX (''<2019-11-05 Tue 23:59>'' @ [CHR 0x0A]) \<noteq> None"
  by code_simp

text \<open>
  Claim C8, amended. Both patterns, as the parsing and delta-application operations use
  them, are anchored at both ends: a well-formed time-stamp (or range) with text \<open>pre\<close>
  before it and \<open>post\<close> after it is recognised exactly when \<open>pre\<close> is empty and
  \<open>post\<close> is empty or a single newline; in every other case
  \<open>orgmode_timestamp_to_datetime\<close> raises TimestampParseException with the input echoed
  in the message.
\<close>

theorem patterns_anchored_at_both_ends:
  assumes "ts_ok p" and "ts_ok q" and "dash_ok d"
  shows "(re_match ORGMODE_TIMESTAMP_REGEX (pre @ ts_text p @ post) \<noteq> None)
           = (pre = [] \<and> newline_or_end post)
       \<and> (re_match ORGMODE_TIMESTAMP_RANGE_REGEX (pre @ ts_text p @ d @ ts_text q @ post) \<noteq> None)
           = (pre = [] \<and> newline_or_end post)
       \<and> (\<not> (pre = [] \<and> newline_or_end post) \<longrightarrow>
            orgmode_timestamp_to_datetime (pre @ ts_text p @ post)
              = Inl (TimestampParseException (Text (parse_error_text (pre @ ts_text p @ post)))))"
  using TS_anchored [OF assms(1), of pre post] RANGE_anchored [OF assms, of pre post]
    parse_reject [of "pre @ ts_text p @ post"]
  by blast

theorem patterns_anchored_at_both_ends_witness:
  "ts_ok (
     \<lparr>p_open = CHR ''<'', p_year = ''2019'', p_month = ''11'', p_day = ''05'',
      p_wday = ''Tue'', p_hour = ''23'', p_minute = ''59'', p_close = CHR ''>''\<rparr>) \<and> dash_ok ''--'' \<and>
   re_match ORGMODE_TIMESTAMP_REGEX ''x<2019-11-05 Tue 23:59>'' = None \<and>
   re_match ORGMODE_TIMESTAMP_REGEX ''<2019-11-05 Tue 23:59> '' = None \<and>
   re_match ORGMODE_TIMESTAMP_REGEX (''<2019-11-05 Tue 23:59>'' @ [CHR 0x0A]) \<noteq> None"
proof -
  have ok: "ts_ok (
     \<lparr>p_open = CHR ''<'', p_year = ''2019'', p_month = ''11'', p_day = ''05'',
      p_wday = ''Tue'', p_hour = ''23'', p_minute = ''59'', p_close = CHR ''>''\<rparr>)" "dash_ok ''--''" by (simp_all add: ts_eval)
  have t: "ts_text (
     \<lparr>p_open = CHR ''<'', p_year = ''2019'', p_month = ''11'', p_day = ''05'',
      p_wday = ''Tue'', p_hour = ''23'', p_minute = ''59'', p_close = CHR ''>''\<rparr>) = ''<2019-11-05 Tue 23:59>''" by (simp add: ts_eval)
  from patterns_anchored_at_both_ends [OF ok(1) ok(1) ok(2), of "''x''" "[]"]
  have 1: "re_match ORGMODE_TIMESTAMP_REGEX ''x<2019-11-05 Tue 23:59>'' = None"
    by (simp add: t)
  from patterns_anchored_at_both_ends [OF ok(1) ok(1) ok(2), of "[]" "'' ''"]
  have 2: "re_match ORGMODE_TIMESTAMP_REGEX ''<2019-11-05 Tue 23:59> '' = None"
    by (simp add: t newline_or_end_def)
  from patterns_anchored_at_both_ends [OF ok(1) ok(1) ok(2), of "[]" "[CHR 0x0A]"]
  have 3: "re_match ORGMODE_TIMESTAMP_REGEX (''<2019-11-05 Tue 23:59>'' @ [CHR 0x0A]) \<noteq> None"
    by (simp add: t newline_or_end_def)
  from ok 1 2 3 show ?thesis by simp
qed

section \<open>Rendering, parsing and rendering again\<close>

lemma lt10_cases:
  "k < 10 \<Longrightarrow> k = 0 \<or> k = 1 \<or> k = 2 \<or> k = 3 \<or> k = 4 \<or> k = 5 \<or> k = 6 \<or> k = 7 \<or> k = 8 \<or> k = (9::nat)"
  by arith

lemma digit_chr_digit: "k < 10 \<Longrightarrow> is_digit (digit_chr k) \<and> digit_val (digit_chr k) = int k"
  by (drule lt10_cases) (elim disjE; simp add: digit_chr_def is_digit_def digit_val_def)

lemma digit_chr_lt6: "k < 6 \<Longrightarrow> digit_chr k \<in> set ''012345''"
proof -
  assume "k < 6"
  then have "k = 0 \<or> k = 1 \<or> k = 2 \<or> k = 3 \<or> k = 4 \<or> k = 5" by arith
  then show ?thesis by (elim disjE; simp add: digit_chr_def)
qed

lemma digit_chr_lt2: "k < 2 \<Longrightarrow> digit_chr k \<in> set ''01''"
proof -
  assume "k < 2"
  then have "k = 0 \<or> k = 1" by arith
  then show ?thesis by (elim disjE; simp add: digit_chr_def)
qed

lemma digit_chr_12: "k = 1 \<or> k = 2 \<Longrightarrow> digit_chr k \<in> set ''12''"
  by (elim disjE; simp add: digit_chr_def)

lemma digits_val_2: "digits_val [a, b] = 10 * digit_val a + digit_val b"
  by (simp add: digits_val_def)

lemma digits_val_4:
  "digits_val [a, b, c, d] = 1000 * digit_val a + 100 * digit_val b + 10 * digit_val c + digit_val d"
  by (simp add: digits_val_def)

lemma fmt_2d_ok:
  assumes "0 \<le> n" "n \<le> 59"
  shows "two_ok ''012345'' (fmt_2d n) \<and> digits_val (fmt_2d n) = n"
proof -
  have a: "nat n div 10 < 6" "nat n mod 10 < 10" using assms by auto
  then have b: "nat n div 10 < 10" by simp
  have "int (nat n div 10) * 10 + int (nat n mod 10) = n" using assms by (simp add: zdiv_int zmod_int)
  then show ?thesis
    using digit_chr_lt6 [OF a(1)] digit_chr_digit [OF a(2)] digit_chr_digit [OF b]
    by (simp add: fmt_2d_def digits_val_2)
qed

lemma fmt_2d_hour:
  assumes "0 \<le> n" "n \<le> 23"
  shows "hour_ok (fmt_2d n)"
proof (cases "n < 20")
  case True
  then have a: "nat n div 10 < 2" "nat n mod 10 < 10" using assms by auto
  show ?thesis
    using digit_chr_lt2 [OF a(1)] digit_chr_digit [OF a(2)]
    by (simp add: fmt_2d_def hour_ok_def)
next
  case False
  with assms have "n = 20 \<or> n = 21 \<or> n = 22 \<or> n = 23" by arith
  then show ?thesis by (elim disjE; simp add: fmt_2d_def hour_ok_def digit_chr_def)
qed

lemma decimal_4:
  assumes "1000 \<le> y" "y \<le> 9999"
  shows "decimal y = [digit_chr (nat (y div 1000)), digit_chr (nat (y div 100 mod 10)),
                      digit_chr (nat (y div 10 mod 10)), digit_chr (nat (y mod 10))]"
proof -
  have d1: "y div 10 div 10 = y div 100" "y div 100 div 10 = y div 1000"
    by (simp_all add: zdiv_zmult2_eq [symmetric])
  have r: "\<not> y < 10" "\<not> y div 10 < 10" "\<not> y div 100 < 10" "y div 1000 < 10"
    using assms by simp_all
  have "decimal (y div 1000) = [digit_chr (nat (y div 1000))]"
    using r(4) by (subst decimal.simps) simp
  then have "decimal (y div 100) = [digit_chr (nat (y div 1000)), digit_chr (nat (y div 100 mod 10))]"
    using r(3) by (subst decimal.simps) (simp add: d1)
  then have "decimal (y div 10) = [digit_chr (nat (y div 1000)), digit_chr (nat (y div 100 mod 10)),
      digit_chr (nat (y div 10 mod 10))]"
    using r(2) by (subst decimal.simps) (simp add: d1)
  then show ?thesis
    using r(1) by (subst decimal.simps) simp
qed

lemma fmt_Y_ok:
  assumes "1000 \<le> y" "y \<le> 2999"
  shows "year_ok (fmt_Y y) \<and> digits_val (fmt_Y y) = y"
proof -
  have f: "fmt_Y y = [digit_chr (nat (y div 1000)), digit_chr (nat (y div 100 mod 10)),
                      digit_chr (nat (y div 10 mod 10)), digit_chr (nat (y mod 10))]"
    using assms decimal_4 [of y] by (simp add: fmt_Y_def)
  have a: "nat (y div 1000) = 1 \<or> nat (y div 1000) = 2" using assms by auto
  then have a': "nat (y div 1000) < 10" by auto
  have b: "nat (y div 100 mod 10) < 10" "nat (y div 10 mod 10) < 10" "nat (y mod 10) < 10"
    by simp_all
  have d1: "y div 10 div 10 = y div 100" "y div 100 div 10 = y div 1000"
    by (simp_all add: zdiv_zmult2_eq [symmetric])
  have e1: "10 * (y div 10) + y mod 10 = y" by (rule mult_div_mod_eq)
  have e2: "10 * (y div 100) + y div 10 mod 10 = y div 10"
    using mult_div_mod_eq [of 10 "y div 10"] by (simp add: d1)
  have e3: "10 * (y div 1000) + y div 100 mod 10 = y div 100"
    using mult_div_mod_eq [of 10 "y div 100"] by (simp add: d1)
  have e: "1000 * (y div 1000) + 100 * (y div 100 mod 10) + 10 * (y div 10 mod 10) + y mod 10 = y"
    using e1 e2 e3 by linarith
  have yk: "year_ok (fmt_Y y)"
    unfolding f year_ok.simps
    using digit_chr_12 [OF a] digit_chr_digit [OF b(1)] digit_chr_digit [OF b(2)]
      digit_chr_digit [OF b(3)] by blast
  have n: "int (nat (y div 1000)) = y div 1000" "int (nat (y div 100 mod 10)) = y div 100 mod 10"
    "int (nat (y div 10 mod 10)) = y div 10 mod 10" "int (nat (y mod 10)) = y mod 10"
    using assms by simp_all
  have "digits_val (fmt_Y y) =
      1000 * int (nat (y div 1000)) + 100 * int (nat (y div 100 mod 10))
        + 10 * int (nat (y div 10 mod 10)) + int (nat (y mod 10))"
    unfolding f digits_val_4
    using digit_chr_digit [OF a'] digit_chr_digit [OF b(1)] digit_chr_digit [OF b(2)]
      digit_chr_digit [OF b(3)] by presburger
  also have "\<dots> = y" unfolding n by (rule e)
  finally show ?thesis using yk by simp
qed

lemma fmt_Y_length:
  assumes "1000 \<le> y" "y \<le> 9999"
  shows "length (fmt_Y y) = 4"
  using assms decimal_4 [OF assms] by (simp add: fmt_Y_def)

lemma day_name_weekdays: "0 \<le> w \<Longrightarrow> w \<le> 6 \<Longrightarrow> day_name w \<in> set WEEKDAYS"
proof -
  assume "0 \<le> w" "w \<le> 6"
  then have "w = 0 \<or> w = 1 \<or> w = 2 \<or> w = 3 \<or> w = 4 \<or> w = 5 \<or> w = 6" by arith
  then show ?thesis by (elim disjE; simp add: day_name_def WEEKDAYS_def)
qed

lemma date_datetime_valid:
  assumes "valid_datetime dt"
  shows "date (DateTime dt) show_time inactive =
         Inr ((if inactive then ''['' else ''<'')
                @ date_text (dt_year dt) (dt_month dt) (dt_day dt)
                @ (if show_time then '' '' @ time_text (dt_hour dt) (dt_minute dt) else [])
                @ (if inactive then '']'' else ''>''))"
proof -
  let ?t = "timetuple dt"
  from assms have m: "1 \<le> dt_month dt" "dt_month dt \<le> 12" and d: "1 \<le> dt_day dt"
    "dt_day dt \<le> days_in_month (dt_year dt) (dt_month dt)"
    by (simp_all add: valid_datetime_def valid_date_fields_def)
  have v: "valid_fields ?t" using assms by (simp add: valid_fields_def valid_datetime_def timetuple_def)
  have w: "0 \<le> tm_wday ?t" "tm_wday ?t \<le> 6"
    using weekday_range [of "dt_year dt" "dt_month dt" "dt_day dt"] by (simp_all add: timetuple_def)
  have yd: "0 \<le> tm_yday ?t" "tm_yday ?t \<le> 366"
    using days_before_month_bounds [OF m, of "dt_year dt"] days_in_month_bounds [OF m, of "dt_year dt"] d
    by (simp_all add: timetuple_def)
  have dst: "fits_c_int (tm_isdst ?t)" by (simp add: timetuple_def fits_c_int_def)
  have s: "\<And>st ia. strftime_org st ia ?t = Inr ((if ia then ''['' else ''<'')
                @ date_text (dt_year dt) (dt_month dt) (dt_day dt)
                @ (if st then '' '' @ time_text (dt_hour dt) (dt_minute dt) else [])
                @ (if ia then '']'' else ''>''))"
    using strftime_org_valid [OF v w yd dst]
    by (simp add: timetuple_def date_text_def)
  show ?thesis
    by (simp add: date_def local_structtime_def datetime_to_struct_time_def s)
qed

lemma datetime_new_valid:
  assumes "valid_date_fields y m d" "valid_time_fields hh mm ss"
  shows "datetime_new y m d hh mm ss =
         Inr \<lparr>dt_year = y, dt_month = m, dt_day = d, dt_hour = hh, dt_minute = mm,
              dt_second = ss, dt_microsecond = 0\<rparr>"
  using assms valid_fits [OF assms] by (simp add: datetime_new_def)

lemma rendered_text:
  "ts_text (rendered_parts y m d hh mm) = ''<'' @ date_text y m d @ '' '' @ time_text hh mm @ ''>''"
  by (simp add: rendered_parts_def ts_text_def date_text_def time_text_def)

lemma rendered_ok:
  assumes "valid_date_fields y m d" "valid_time_fields hh mm ss" "1000 \<le> y" "y \<le> 2999"
  shows "ts_ok (rendered_parts y m d hh mm)"
proof -
  from assms(1) have m: "1 \<le> m" "m \<le> 12" and d: "1 \<le> d" "d \<le> days_in_month y m"
    by (simp_all add: valid_date_fields_def)
  from days_in_month_bounds [OF m, of y] d have d2: "0 \<le> d" "d \<le> 59" by simp_all
  from m have m2: "0 \<le> m" "m \<le> 59" by simp_all
  from assms(2) have h: "0 \<le> hh" "hh \<le> 23" and mi: "0 \<le> mm" "mm \<le> 59"
    by (simp_all add: valid_time_fields_def)
  show ?thesis
    using fmt_Y_ok [OF assms(3,4)] fmt_2d_ok [OF m2] fmt_2d_ok [OF d2] fmt_2d_ok [OF mi]
      fmt_2d_hour [OF h] weekday_range [of y m d] day_name_weekdays [of "weekday y m d"]
    by (simp add: ts_ok_def rendered_parts_def)
qed

lemma rendered_parse:
  assumes "valid_date_fields y m d" "valid_time_fields hh mm ss" "1000 \<le> y" "y \<le> 2999"
  shows "orgmode_timestamp_to_datetime (''<'' @ date_text y m d @ '' '' @ time_text hh mm @ ''>'')
         = Inr \<lparr>dt_year = y, dt_month = m, dt_day = d, dt_hour = hh, dt_minute = mm,
                dt_second = 0, dt_microsecond = 0\<rparr>"
proof -
  from assms(1) have m: "1 \<le> m" "m \<le> 12" and d: "1 \<le> d" "d \<le> days_in_month y m"
    by (simp_all add: valid_date_fields_def)
  from days_in_month_bounds [OF m, of y] d have d2: "0 \<le> d" "d \<le> 59" by simp_all
  from m have m2: "0 \<le> m" "m \<le> 59" by simp_all
  from assms(2) have h: "0 \<le> hh" "hh \<le> 59" and mi: "0 \<le> mm" "mm \<le> 59"
    and v0: "valid_time_fields hh mm 0"
    by (simp_all add: valid_time_fields_def)
  have n: "newline_or_end []" by (simp add: newline_or_end_def)
  from parse_ts [OF rendered_ok [OF assms] n]
  show ?thesis
    using fmt_Y_ok [OF assms(3,4)] fmt_2d_ok [OF m2] fmt_2d_ok [OF d2] fmt_2d_ok [OF mi]
      fmt_2d_ok [OF h] datetime_new_valid [OF assms(1) v0]
    by (simp add: rendered_text) (simp add: rendered_parts_def)
qed


text \<open>
  Claim C2. For every struct_time with valid fields and a year that the grammar can
  express (1000 to 2999: the pattern asks for four digits, the first of them 1 or 2),
  fixing the weekday and formatting as an active date+time time-stamp gives a string
  that \<open>orgmode_timestamp_to_datetime\<close> parses, and formatting the parsed value gives
  the same string again.
\<close>

theorem render_parse_render_identity:
  assumes "valid_fields t" and "1000 \<le> tm_year t" and "tm_year t \<le> 2999"
  shows "fix_struct_time_wday t = Inr (fixed_wday t) \<and>
         date (StructTime (fixed_wday t)) True False
           = Inr (org_datetime_text (tm_year t) (tm_mon t) (tm_mday t) (tm_hour t) (tm_min t)) \<and>
         orgmode_timestamp_to_datetime
             (org_datetime_text (tm_year t) (tm_mon t) (tm_mday t) (tm_hour t) (tm_min t))
           = Inr \<lparr>dt_year = tm_year t, dt_month = tm_mon t, dt_day = tm_mday t,
                  dt_hour = tm_hour t, dt_minute = tm_min t, dt_second = 0,
                  dt_microsecond = 0\<rparr> \<and>
         date (DateTime \<lparr>dt_year = tm_year t, dt_month = tm_mon t, dt_day = tm_mday t,
                  dt_hour = tm_hour t, dt_minute = tm_min t, dt_second = 0,
                  dt_microsecond = 0\<rparr>) True False
           = Inr (org_datetime_text (tm_year t) (tm_mon t) (tm_mday t) (tm_hour t) (tm_min t))"
proof -
  let ?dt = "\<lparr>dt_year = tm_year t, dt_month = tm_mon t, dt_day = tm_mday t, dt_hour = tm_hour t,
              dt_minute = tm_min t, dt_second = 0, dt_microsecond = 0\<rparr>"
  from assms(1) have vd: "valid_date_fields (tm_year t) (tm_mon t) (tm_mday t)"
    and vt: "valid_time_fields (tm_hour t) (tm_min t) (tm_sec t)"
    by (simp_all add: valid_fields_def)
  have v': "valid_fields (fixed_wday t)"
    using assms(1) by (simp add: valid_fields_def fixed_wday_def)
  have 1: "fix_struct_time_wday t = Inr (fixed_wday t)"
    by (rule fix_struct_time_wday_valid [OF assms(1)])
  have 2: "date (StructTime (fixed_wday t)) True False
      = Inr (org_datetime_text (tm_year t) (tm_mon t) (tm_mday t) (tm_hour t) (tm_min t))"
    using date_struct_time_valid [OF v', of True False]
    by (simp add: fixed_wday_def org_datetime_text_def)
  have 3: "orgmode_timestamp_to_datetime
      (org_datetime_text (tm_year t) (tm_mon t) (tm_mday t) (tm_hour t) (tm_min t)) = Inr ?dt"
    unfolding org_datetime_text_def by (rule rendered_parse [OF vd vt assms(2,3)])
  have vdt: "valid_datetime ?dt"
    using vd vt by (simp add: valid_datetime_def valid_time_fields_def)
  have 4: "date (DateTime ?dt) True False
      = Inr (org_datetime_text (tm_year t) (tm_mon t) (tm_mday t) (tm_hour t) (tm_min t))"
    using date_datetime_valid [OF vdt, of True False] by (simp add: org_datetime_text_def)
  from 1 2 3 4 show ?thesis by blast
qed

theorem render_parse_render_identity_witness:
  "valid_fields (
     \<lparr>tm_year = 2013, tm_mon = 4, tm_mday = 3, tm_hour = 10, tm_min = 54, tm_sec = 0,
      tm_wday = 0, tm_yday = 0, tm_isdst = 0\<rparr>) \<and>
   date (StructTime (
     \<lparr>tm_year = 2013, tm_mon = 4, tm_mday = 3, tm_hour = 10, tm_min = 54, tm_sec = 0,
      tm_wday = 2, tm_yday = 0, tm_isdst = 0\<rparr>)) True False = Inr ''<2013-04-03 Wed 10:54>'' \<and>
   orgmode_timestamp_to_datetime ''<2013-04-03 Wed 10:54>'' = Inr (
     \<lparr>dt_year = 2013, dt_month = 4, dt_day = 3, dt_hour = 10, dt_minute = 54,
      dt_second = 0, dt_microsecond = 0\<rparr>) \<and>
   date (DateTime (
     \<lparr>dt_year = 2013, dt_month = 4, dt_day = 3, dt_hour = 10, dt_minute = 54,
      dt_second = 0, dt_microsecond = 0\<rparr>)) True False = Inr ''<2013-04-03 Wed 10:54>''"
  using render_parse_render_identity [of "
     \<lparr>tm_year = 2013, tm_mon = 4, tm_mday = 3, tm_hour = 10, tm_min = 54, tm_sec = 0,
      tm_wday = 0, tm_yday = 0, tm_isdst = 0\<rparr>"]
  by (simp add: cal_eval fmt_eval org_datetime_text_def fixed_wday_def)

section \<open>From day numbers back to dates\<close>

lemma days_in_month_leap:
  "1 \<le> m \<Longrightarrow> m \<le> 12 \<Longrightarrow>
   days_in_month y m = DAYS_IN_MONTH ! nat m + (if m = 2 \<and> is_leap y then 1 else 0)"
  by (drule (1) month_cases) (elim disjE; simp add: days_in_month_def DAYS_IN_MONTH_def)

lemma month_and_day_correct:
  assumes "0 \<le> n" "n \<le> 364 \<or> (leap \<and> n = 365)"
  shows "case month_and_day leap n of (m, d) \<Rightarrow>
           1 \<le> m \<and> m \<le> 12 \<and> 1 \<le> d \<and>
           d \<le> DAYS_IN_MONTH ! nat m + (if m = 2 \<and> leap then 1 else 0) \<and>
           DAYS_BEFORE_MONTH ! nat m + (if m > 2 \<and> leap then 1 else 0) + d = n + 1"
proof -
  define k where "k = (n + 50) div 32"
  have kb: "32 * k \<le> n + 50" "n + 50 < 32 * k + 32"
    unfolding k_def by presburger+
  have "1 \<le> k" "k \<le> 12" using kb assms by auto
  from month_cases [OF this] show ?thesis
    using kb assms
    by (elim disjE)
       (auto simp: month_and_day_def Let_def k_def [symmetric] DAYS_BEFORE_MONTH_def
          DAYS_IN_MONTH_def)
qed

lemma dby_formula:
  assumes "0 \<le> b" "b \<le> 3" "0 \<le> c" "c \<le> 24" "0 \<le> e" "e \<le> 3"
  shows "days_before_year (400 * a + 100 * b + 4 * c + e + 1)
         = 146097 * a + 36524 * b + 1461 * c + 365 * e"
proof -
  let ?Y = "400 * a + 100 * b + 4 * c + e"
  have 1: "?Y div 4 = 100 * a + 25 * b + c"
    by (rule int_div_pos_eq [where r = e]) (use assms in auto)
  have 2: "?Y div 100 = 4 * a + b"
    by (rule int_div_pos_eq [where r = "4 * c + e"]) (use assms in auto)
  have 3: "?Y div 400 = a"
    by (rule int_div_pos_eq [where r = "100 * b + 4 * c + e"]) (use assms in auto)
  show ?thesis
    by (simp add: days_before_year_def Let_def 1 2 3)
qed

lemma is_leap_formula:
  assumes "0 \<le> b" "b \<le> 3" "0 \<le> c" "c \<le> 24" "0 \<le> e" "e \<le> 3"
  shows "is_leap (400 * a + 100 * b + 4 * c + e + 1) \<longleftrightarrow> (e = 3 \<and> (c \<noteq> 24 \<or> b = 3))"
proof -
  let ?y = "400 * a + 100 * b + 4 * c + e + 1"
  show ?thesis
  proof (cases "e = 3")
    case False
    have "?y mod 4 = e + 1"
      by (rule int_mod_pos_eq [where q = "100 * a + 25 * b + c"]) (use assms False in auto)
    with assms False show ?thesis by (simp add: is_leap_def)
  next
    case e: True
    have m4: "?y mod 4 = 0"
      by (rule int_mod_pos_eq [where q = "100 * a + 25 * b + c + 1"]) (use e in auto)
    show ?thesis
    proof (cases "c = 24")
      case False
      have "?y mod 100 = 4 * c + 4"
        by (rule int_mod_pos_eq [where q = "4 * a + b"]) (use assms e False in auto)
      with assms m4 e False show ?thesis by (simp add: is_leap_def)
    next
      case c: True
      have m100: "?y mod 100 = 0"
        by (rule int_mod_pos_eq [where q = "4 * a + b + 1"]) (use e c in auto)
      show ?thesis
      proof (cases "b = 3")
        case True
        have "?y mod 400 = 0"
          by (rule int_mod_pos_eq [where q = "a + 1"]) (use e c True in auto)
        with m4 e c True show ?thesis by (simp add: is_leap_def)
      next
        case False
        have "?y mod 400 = 100 * b + 100"
          by (rule int_mod_pos_eq [where q = a]) (use assms e c False in auto)
        with assms m4 m100 e c False show ?thesis by (simp add: is_leap_def)
      qed
    qed
  qed
qed


lemma div_bounds:
  fixes x :: int
  assumes "0 \<le> x" "x \<le> K" "0 < k"
  shows "0 \<le> x div k \<and> x div k \<le> K div k"
  using assms by (simp add: zdiv_mono1 pos_imp_zdiv_nonneg_iff)

lemma ord2ymd_correct:
  assumes "1 \<le> n"
  shows "case ord2ymd n of (y, m, d) \<Rightarrow>
           1 \<le> y \<and> 1 \<le> m \<and> m \<le> 12 \<and> 1 \<le> d \<and> d \<le> days_in_month y m \<and>
           ymd2ord y m d = n"
proof -
  define n0 where "n0 = n - 1"
  define a where "a = n0 div 146097"
  define n1 where "n1 = n0 mod 146097"
  define b where "b = n1 div 36524"
  define n2 where "n2 = n1 mod 36524"
  define c where "c = n2 div 1461"
  define n3 where "n3 = n2 mod 1461"
  define e where "e = n3 div 365"
  define nn where "nn = n3 mod 365"
  define L where "L \<longleftrightarrow> e = 3 \<and> (c \<noteq> 24 \<or> b = 3)"
  have n0: "0 \<le> n0" using assms by (simp add: n0_def)
  have a: "0 \<le> a" using n0 by (simp add: a_def pos_imp_zdiv_nonneg_iff)
  have n1: "0 \<le> n1" "n1 \<le> 146096" by (simp_all add: n1_def) 
  have b: "0 \<le> b" "b \<le> 4" using div_bounds [OF n1, of 36524] by (simp_all add: b_def)
  have n2: "0 \<le> n2" "n2 \<le> 36523" by (simp_all add: n2_def)
  have c: "0 \<le> c" "c \<le> 24" using div_bounds [OF n2, of 1461] by (simp_all add: c_def)
  have n3: "0 \<le> n3" "n3 \<le> 1460" by (simp_all add: n3_def)
  have e: "0 \<le> e" "e \<le> 4" using div_bounds [OF n3, of 365] by (simp_all add: e_def)
  have nn: "0 \<le> nn" "nn \<le> 364" by (simp_all add: nn_def)
  have d0: "n0 = 146097 * a + n1" unfolding a_def n1_def by (rule mult_div_mod_eq [symmetric])
  have d1: "n1 = 36524 * b + n2" unfolding b_def n2_def by (rule mult_div_mod_eq [symmetric])
  have d2: "n2 = 1461 * c + n3" unfolding c_def n3_def by (rule mult_div_mod_eq [symmetric])
  have d3: "n3 = 365 * e + nn" unfolding e_def nn_def by (rule mult_div_mod_eq [symmetric])
  have o: "ord2ymd n =
      (if e = 4 \<or> b = 4 then (400 * a + 100 * b + 4 * c + e, 12, 31)
       else case month_and_day L nn of
              (m, d) \<Rightarrow> (400 * a + 100 * b + 4 * c + e + 1, m, d))"
    by (simp add: ord2ymd_def Let_def DI400Y_def DI100Y_def DI4Y_def
          n0_def [symmetric] a_def [symmetric] n1_def [symmetric] b_def [symmetric]
          n2_def [symmetric] c_def [symmetric] n3_def [symmetric] e_def [symmetric]
          nn_def [symmetric] L_def algebra_simps)
  show ?thesis
  proof (cases "e = 4 \<or> b = 4")
    case True
    text \<open>The last day of a leap year or of a 400-year cycle.\<close>
    obtain b' c' where bc: "0 \<le> b'" "b' \<le> 3" "0 \<le> c'" "c' \<le> 24" "c' \<noteq> 24 \<or> b' = 3"
      and y: "400 * a + 100 * b + 4 * c + e = 400 * a + 100 * b' + 4 * c' + 3 + 1"
      and n: "n0 = 146097 * a + 36524 * b' + 1461 * c' + 1460"
    proof (cases "b = 4")
      case True
      with d1 n1 n2 have "n2 = 0" by simp
      with d2 d3 c n3 e nn have "c = 0 \<and> e = 0 \<and> nn = 0" by arith
      then have "c = 0" "e = 0" "nn = 0" by simp_all
      with True d0 d1 d2 d3 \<open>n2 = 0\<close> show ?thesis by (intro that [of 3 24]) simp_all
    next
      case False
      with True b have e4: "e = 4" and b3: "b \<le> 3" by simp_all
      with d3 n3 nn have n3': "n3 = 1460" "nn = 0" by simp_all
      with d2 n2 have "c \<le> 23" by simp
      with e4 b b3 c d0 d1 d2 n3' show ?thesis by (intro that [of b c]) simp_all
    qed
    let ?y = "400 * a + 100 * b' + 4 * c' + 3 + 1"
    have l: "is_leap ?y" using is_leap_formula [OF bc(1-4), of 3 a] bc(5) by simp
    have dby: "days_before_year ?y = 146097 * a + 36524 * b' + 1461 * c' + 1095"
      using dby_formula [OF bc(1-4), of 3 a] by simp
    have "ymd2ord ?y 12 31 = n"
      using l dby n by (simp add: ymd2ord_def days_before_month_def DAYS_BEFORE_MONTH_def n0_def)
    moreover have "days_in_month ?y 12 = 31" by (simp add: days_in_month_def DAYS_IN_MONTH_def)
    moreover have "1 \<le> ?y" using a bc by simp
    ultimately show ?thesis using True by (simp add: o y)
  next
    case False
    with b e have b3: "b \<le> 3" and e3: "e \<le> 3" by simp_all
    let ?y = "400 * a + 100 * b + 4 * c + e + 1"
    have l: "is_leap ?y = L" unfolding L_def by (rule is_leap_formula [OF b(1) b3 c e(1) e3])
    have dby: "days_before_year ?y = 146097 * a + 36524 * b + 1461 * c + 365 * e"
      by (rule dby_formula [OF b(1) b3 c e(1) e3])
    obtain m d where md: "month_and_day L nn = (m, d)" by (cases "month_and_day L nn")
    from month_and_day_correct [of nn L] nn md
    have m: "1 \<le> m" "m \<le> 12" and d: "1 \<le> d"
      "d \<le> DAYS_IN_MONTH ! nat m + (if m = 2 \<and> L then 1 else 0)"
      "DAYS_BEFORE_MONTH ! nat m + (if m > 2 \<and> L then 1 else 0) + d = nn + 1"
      by simp_all
    have dim: "d \<le> days_in_month ?y m" using d(2) by (simp only: days_in_month_leap [OF m] l)
    have "ymd2ord ?y m d = n"
      using d(3) dby d0 d1 d2 d3
      by (simp only: ymd2ord_def days_before_month_def l) (simp add: n0_def)
    moreover have "1 \<le> ?y" using a b c e by simp
    ultimately show ?thesis using False m d(1) dim by (simp add: o md)
  qed
qed

lemma dby_lower: "10000 \<le> y \<Longrightarrow> 3652059 \<le> days_before_year y"
proof -
  assume y: "10000 \<le> y"
  define Y where "Y = y - 1"
  have Y: "9999 \<le> Y" using y by (simp add: Y_def)
  have 1: "2499 \<le> Y div 4" using zdiv_mono1 [of 9999 Y 4] Y by simp
  have 2: "Y div 100 \<le> Y div 4 - 2400"
  proof -
    have "Y div 100 = Y div 4 div 25" by (simp add: zdiv_zmult2_eq [symmetric])
    also have "\<dots> \<le> Y div 4 - 2400" using 1 by arith
    finally show ?thesis .
  qed
  have 3: "24 \<le> Y div 400" using zdiv_mono1 [of 9999 Y 400] Y by simp
  show ?thesis
    using Y 1 2 3 by (simp add: days_before_year_def Let_def Y_def [symmetric])
qed

lemma ord2ymd_valid:
  assumes "1 \<le> n" "n \<le> MAXORDINAL"
  shows "case ord2ymd n of (y, m, d) \<Rightarrow> valid_date_fields y m d \<and> ymd2ord y m d = n"
proof -
  obtain y m d where o: "ord2ymd n = (y, m, d)" by (cases "ord2ymd n")
  from ord2ymd_correct [OF assms(1)] o
  have c: "1 \<le> y" "1 \<le> m" "m \<le> 12" "1 \<le> d" "d \<le> days_in_month y m" "ymd2ord y m d = n"
    by simp_all
  have "y \<le> 9999"
  proof (rule ccontr)
    assume "\<not> y \<le> 9999"
    then have "3652059 \<le> days_before_year y" using dby_lower [of y] by simp
    moreover have "0 \<le> days_before_month y m" using days_before_month_bounds [OF c(2,3)] by simp
    ultimately have "3652059 < ymd2ord y m d" using c(4) by (simp add: ymd2ord_def)
    with c(6) assms(2) show False by (simp add: MAXORDINAL_def)
  qed
  with c show ?thesis by (simp add: o valid_date_fields_def MINYEAR_def MAXYEAR_def)
qed

lemma datetime_add_correct:
  assumes r: "86400000000 \<le> instant_us dt + total_microseconds td"
    "instant_us dt + total_microseconds td < 3652060 * 86400000000"
  shows "\<exists>dt'. datetime_add dt td = Inr dt' \<and> valid_datetime dt' \<and>
           0 \<le> dt_microsecond dt' \<and> dt_microsecond dt' < 1000000 \<and>
           instant_us dt' = instant_us dt + total_microseconds td"
proof -
  define total where "total = instant_us dt + total_microseconds td"
  define days where "days = total div 86400000000"
  define rest where "rest = total mod 86400000000"
  define secs where "secs = rest div 1000000"
  define us where "us = rest mod 1000000"
  define hh where "hh = secs div 3600"
  define rm where "rm = secs mod 3600"
  define mi where "mi = rm div 60"
  define ss where "ss = rm mod 60"
  have t: "86400000000 \<le> total" "total \<le> 3652060 * 86400000000 - 1"
    using r by (simp_all add: total_def)
  have days: "1 \<le> days" "days \<le> 3652059"
    using zdiv_mono1 [of 86400000000 total 86400000000]
      zdiv_mono1 [of total "3652060 * 86400000000 - 1" 86400000000] t
    by (simp_all add: days_def)
  have rest: "0 \<le> rest" "rest \<le> 86399999999" by (simp_all add: rest_def)
  have secs: "0 \<le> secs" "secs \<le> 86399" using div_bounds [OF rest, of 1000000] by (simp_all add: secs_def)
  have us: "0 \<le> us" "us < 1000000" by (simp_all add: us_def)
  have hh: "0 \<le> hh" "hh \<le> 23" using div_bounds [OF secs, of 3600] by (simp_all add: hh_def)
  have rm: "0 \<le> rm" "rm \<le> 3599" by (simp_all add: rm_def)
  have mi: "0 \<le> mi" "mi \<le> 59" using div_bounds [OF rm, of 60] by (simp_all add: mi_def)
  have ss: "0 \<le> ss" "ss \<le> 59" by (simp_all add: ss_def)
  have e0: "total = 86400000000 * days + rest" unfolding days_def rest_def by (rule mult_div_mod_eq [symmetric])
  have e1: "rest = 1000000 * secs + us" unfolding secs_def us_def by (rule mult_div_mod_eq [symmetric])
  have e2: "secs = 3600 * hh + rm" unfolding hh_def rm_def by (rule mult_div_mod_eq [symmetric])
  have e3: "rm = 60 * mi + ss" unfolding mi_def ss_def by (rule mult_div_mod_eq [symmetric])
  obtain y m d where o: "ord2ymd days = (y, m, d)" by (cases "ord2ymd days")
  from ord2ymd_valid [of days] days o
  have v: "valid_date_fields y m d" and od: "ymd2ord y m d = days" by (simp_all add: MAXORDINAL_def)
  let ?dt' = "\<lparr>dt_year = y, dt_month = m, dt_day = d, dt_hour = hh, dt_minute = mi,
               dt_second = ss, dt_microsecond = us\<rparr>"
  have m2d: "microseconds_to_delta total =
      Inr \<lparr>td_days = days, td_seconds = secs, td_microseconds = us\<rparr>"
    using days
    by (simp add: microseconds_to_delta_def Let_def days_def [symmetric] rest_def [symmetric]
          secs_def [symmetric] us_def [symmetric])
  have 1: "datetime_add dt td = Inr ?dt'"
    using days
    by (simp add: datetime_add_def total_def [symmetric] m2d bind_exn_def Let_def MAXORDINAL_def o
          hh_def [symmetric] rm_def [symmetric] mi_def [symmetric] ss_def [symmetric])
  have 2: "valid_datetime ?dt'" using v hh mi ss by (simp add: valid_datetime_def valid_time_fields_def)
  have 3: "instant_us ?dt' = total"
    using e0 e1 e2 e3 by (simp add: instant_us_def od)
  from 1 2 3 us show ?thesis unfolding total_def by auto
qed

lemma datetime_add_overflow:
  assumes "instant_us dt + total_microseconds td < 86400000000 \<or>
           3652060 * 86400000000 \<le> instant_us dt + total_microseconds td"
  shows "datetime_add dt td = Inl OverflowError"
proof -
  define total where "total = instant_us dt + total_microseconds td"
  define days where "days = total div 86400000000"
  have "days \<le> 0 \<or> 3652060 \<le> days"
    using assms zdiv_mono1 [of total "86400000000 - 1" 86400000000]
      zdiv_mono1 [of "3652060 * 86400000000" total 86400000000]
    by (auto simp: days_def total_def)
  then show ?thesis
    by (auto simp: datetime_add_def total_def [symmetric] microseconds_to_delta_def Let_def
          days_def [symmetric] bind_exn_def MAXORDINAL_def)
qed

lemma instant_minutes:
  assumes "0 \<le> dt_second dt" "dt_second dt \<le> 59" "0 \<le> dt_microsecond dt"
    "dt_microsecond dt < 1000000"
  shows "instant_us dt div 60000000 =
         ymd2ord (dt_year dt) (dt_month dt) (dt_day dt) * 1440 + dt_hour dt * 60 + dt_minute dt"
  by (rule int_div_pos_eq [where r = "dt_second dt * 1000000 + dt_microsecond dt"])
     (use assms in \<open>auto simp: instant_us_def\<close>)

section \<open>Shifting a parsed time\<close>

lemma days_before_year_bounds:
  assumes "1 \<le> y" "y \<le> 9999"
  shows "0 \<le> days_before_year y \<and> days_before_year y \<le> 3652000"
proof -
  define Y where "Y = y - 1"
  have Y: "0 \<le> Y" "Y \<le> 9998" using assms by (simp_all add: Y_def)
  have 1: "0 \<le> Y div 400" "Y div 400 \<le> 24" using div_bounds [OF Y, of 400] by simp_all
  have 2: "0 \<le> Y div 100" using div_bounds [OF Y, of 100] by simp
  have 3: "Y div 100 \<le> Y div 4"
  proof -
    have "Y div 100 = Y div 4 div 25" by (simp add: zdiv_zmult2_eq [symmetric])
    also have "\<dots> \<le> Y div 4" using div_bounds [OF Y, of 4] by arith
    finally show ?thesis .
  qed
  have 4: "Y div 4 \<le> 2499" using div_bounds [OF Y, of 4] by simp
  show ?thesis using Y 1 2 3 4 by (simp add: days_before_year_def Let_def Y_def [symmetric])
qed

lemma instant_us_bounds:
  assumes "valid_datetime dt" "0 \<le> dt_microsecond dt" "dt_microsecond dt < 1000000"
  shows "86400000000 \<le> instant_us dt \<and> instant_us dt < 3652500 * 86400000000"
proof -
  from assms(1) have y: "1 \<le> dt_year dt" "dt_year dt \<le> 9999" and m: "1 \<le> dt_month dt" "dt_month dt \<le> 12"
    and d: "1 \<le> dt_day dt" "dt_day dt \<le> days_in_month (dt_year dt) (dt_month dt)"
    and t: "0 \<le> dt_hour dt" "dt_hour dt \<le> 23" "0 \<le> dt_minute dt" "dt_minute dt \<le> 59"
      "0 \<le> dt_second dt" "dt_second dt \<le> 59"
    by (simp_all add: valid_datetime_def valid_date_fields_def valid_time_fields_def MINYEAR_def MAXYEAR_def)
  have o: "1 \<le> ymd2ord (dt_year dt) (dt_month dt) (dt_day dt)"
     "ymd2ord (dt_year dt) (dt_month dt) (dt_day dt) \<le> 3652400"
    using days_before_year_bounds [OF y] days_before_month_bounds [OF m, of "dt_year dt"]
      days_in_month_bounds [OF m, of "dt_year dt"] d
    by (simp_all add: ymd2ord_def)
  show ?thesis using o t assms(2,3) by (simp add: instant_us_def)
qed

lemma datetime_new_Inr:
  assumes "datetime_new y m d hh mm ss = Inr dt"
  shows "valid_datetime dt \<and> dt_second dt = ss \<and> dt_microsecond dt = 0"
  using assms by (auto simp: datetime_new_def valid_datetime_def split: if_splits)

lemma microseconds_to_delta_total:
  "microseconds_to_delta us = Inr td \<Longrightarrow> total_microseconds td = us"
proof -
  assume a: "microseconds_to_delta us = Inr td"
  define rest where "rest = us mod 86400000000"
  have "td = \<lparr>td_days = us div 86400000000, td_seconds = rest div 1000000,
              td_microseconds = rest mod 1000000\<rparr>"
    using a by (auto simp: microseconds_to_delta_def Let_def rest_def split: if_splits)
  moreover have "1000000 * (rest div 1000000) + rest mod 1000000 = rest" by (rule mult_div_mod_eq)
  moreover have "86400000000 * (us div 86400000000) + rest = us" unfolding rest_def by (rule mult_div_mod_eq)
  ultimately show ?thesis by (simp add: total_microseconds_def)
qed

lemma microseconds_to_delta_small:
  assumes "- 999999999 * 86400000000 \<le> us" "us < 999999999 * 86400000000"
  shows "\<exists>td. microseconds_to_delta us = Inr td"
proof -
  have "- 999999999 \<le> us div 86400000000" "us div 86400000000 \<le> 999999999"
    using zdiv_mono1 [of "- 999999999 * 86400000000" us 86400000000]
      zdiv_mono1 [of us "999999999 * 86400000000" 86400000000] assms by simp_all
  then show ?thesis by (simp add: microseconds_to_delta_def Let_def)
qed

lemma microseconds_to_delta_error:
  "microseconds_to_delta us = Inl e \<Longrightarrow>
   e = OverflowError \<and> (us < - 3652500 * 86400000000 \<or> 3652500 * 86400000000 \<le> us)"
proof -
  assume a: "microseconds_to_delta us = Inl e"
  then have e: "e = OverflowError"
    and d: "us div 86400000000 < - 999999999 \<or> 999999999 < us div 86400000000"
    by (auto simp: microseconds_to_delta_def Let_def split: if_splits)
  have "us < - 3652500 * 86400000000 \<or> 3652500 * 86400000000 \<le> us"
  proof (rule ccontr)
    assume "\<not> ?thesis"
    then have "- 3652500 * 86400000000 \<le> us" "us \<le> 3652500 * 86400000000" by simp_all
    with zdiv_mono1 [of "- 3652500 * 86400000000" us 86400000000]
      zdiv_mono1 [of us "3652500 * 86400000000" 86400000000]
    have "- 3652500 \<le> us div 86400000000" "us div 86400000000 \<le> 3652500" by simp_all
    with d show False by simp
  qed
  with e show ?thesis by simp
qed

text \<open>Shifting a parsed time by a delta that the constructor turned into \<open>us\<close> microseconds.\<close>

lemma shift_and_render_result:
  assumes v: "valid_datetime dt" "dt_microsecond dt = 0"
    and h: "hours_to_microseconds dh = Inr us"
  shows "(86400000000 \<le> instant_us dt + us \<and> instant_us dt + us < 3652060 * 86400000000 \<longrightarrow>
           (\<exists>y m d hh mm. valid_date_fields y m d \<and> 0 \<le> hh \<and> hh \<le> 23 \<and> 0 \<le> mm \<and> mm \<le> 59 \<and>
              ymd2ord y m d * 1440 + hh * 60 + mm = (instant_us dt + us) div 60000000 \<and>
              shift_and_render (Inr dt) dh = Inr (org_datetime_text y m d hh mm)))
       \<and> (\<not> (86400000000 \<le> instant_us dt + us \<and> instant_us dt + us < 3652060 * 86400000000) \<longrightarrow>
           shift_and_render (Inr dt) dh = Inl OverflowError)"
proof (intro conjI impI)
  assume r: "86400000000 \<le> instant_us dt + us \<and> instant_us dt + us < 3652060 * 86400000000"
  have ib: "86400000000 \<le> instant_us dt" "instant_us dt < 3652500 * 86400000000"
    using instant_us_bounds [OF v(1)] v(2) by simp_all
  with r have "- 999999999 * 86400000000 \<le> us" "us < 999999999 * 86400000000" by simp_all
  from microseconds_to_delta_small [OF this] obtain td where td: "microseconds_to_delta us = Inr td"
    by blast
  have tt: "total_microseconds td = us" by (rule microseconds_to_delta_total [OF td])
  have th: "timedelta_hours dh = Inr td" by (simp add: timedelta_hours_def h bind_exn_def td)
  from datetime_add_correct [of dt td] r tt obtain dt' where
    a: "datetime_add dt td = Inr dt'" and v': "valid_datetime dt'"
    and u': "0 \<le> dt_microsecond dt'" "dt_microsecond dt' < 1000000"
    and i': "instant_us dt' = instant_us dt + us" by auto
  from v' have s': "0 \<le> dt_second dt'" "dt_second dt' \<le> 59"
    and t': "0 \<le> dt_hour dt'" "dt_hour dt' \<le> 23" "0 \<le> dt_minute dt'" "dt_minute dt' \<le> 59"
    and vd: "valid_date_fields (dt_year dt') (dt_month dt') (dt_day dt')"
    by (simp_all add: valid_datetime_def valid_time_fields_def)
  have mn: "ymd2ord (dt_year dt') (dt_month dt') (dt_day dt') * 1440 + dt_hour dt' * 60 + dt_minute dt'
      = (instant_us dt + us) div 60000000"
    using instant_minutes [OF s' u'] i' by simp
  have "shift_and_render (Inr dt) dh =
      Inr (org_datetime_text (dt_year dt') (dt_month dt') (dt_day dt') (dt_hour dt') (dt_minute dt'))"
    using date_datetime_valid [OF v', of True False]
    by (simp add: shift_and_render_def bind_exn_def th a datetime_def org_datetime_text_def)
  with vd t' mn show "\<exists>y m d hh mm. valid_date_fields y m d \<and> 0 \<le> hh \<and> hh \<le> 23 \<and> 0 \<le> mm \<and> mm \<le> 59 \<and>
              ymd2ord y m d * 1440 + hh * 60 + mm = (instant_us dt + us) div 60000000 \<and>
              shift_and_render (Inr dt) dh = Inr (org_datetime_text y m d hh mm)" by blast
next
  assume r: "\<not> (86400000000 \<le> instant_us dt + us \<and> instant_us dt + us < 3652060 * 86400000000)"
  show "shift_and_render (Inr dt) dh = Inl OverflowError"
  proof (cases "microseconds_to_delta us")
    case (Inl e)
    from microseconds_to_delta_error [OF Inl] have "e = OverflowError" by simp
    with Inl show ?thesis by (simp add: shift_and_render_def bind_exn_def timedelta_hours_def h)
  next
    case (Inr td)
    have tt: "total_microseconds td = us" by (rule microseconds_to_delta_total [OF Inr])
    have "datetime_add dt td = Inl OverflowError"
      using r by (intro datetime_add_overflow) (auto simp: tt)
    then show ?thesis by (simp add: shift_and_render_def bind_exn_def timedelta_hours_def h Inr)
  qed
qed

lemma apply_single_eq:
  assumes "ts_ok p" "newline_or_end nl"
  shows "apply_timedelta_to_Orgmode_timestamp (ts_text p @ nl) dh =
         shift_and_render (orgmode_timestamp_to_datetime (ts_text p @ nl)) dh"
proof -
  have "re_match ORGMODE_TIMESTAMP_REGEX (ts_text p @ nl) \<noteq> None"
    using re_match_TS_I [OF assms] by simp
  from single_not_range [OF this] show ?thesis
    by (simp add: apply_timedelta_to_Orgmode_timestamp_def)
qed

lemma apply_range_eq:
  assumes "ts_ok p" "ts_ok q" "dash_ok sep" "newline_or_end nl"
  shows "apply_timedelta_to_Orgmode_timestamp (ts_text p @ sep @ ts_text q @ nl) dh =
         bind_exn (apply_timedelta_to_Orgmode_timestamp (ts_text p) dh) (\<lambda>a.
         bind_exn (apply_timedelta_to_Orgmode_timestamp (ts_text q) dh) (\<lambda>b.
           Inr (a @ ''--'' @ b)))"
proof -
  have n: "newline_or_end []" by (simp add: newline_or_end_def)
  from re_match_RANGE_I [OF assms] obtain g where
    g: "re_match ORGMODE_TIMESTAMP_RANGE_REGEX (ts_text p @ sep @ ts_text q @ nl) = Some g"
      "g 1 = Some (ts_text p)" "g 11 = Some (ts_text q)" by blast
  have pg: "parse_group g 0 = orgmode_timestamp_to_datetime (ts_text p)"
    "parse_group g 10 = orgmode_timestamp_to_datetime (ts_text q)"
    using g(2,3) by (simp_all add: parse_group_def)
  show ?thesis
    using apply_single_eq [OF assms(1) n, of dh] apply_single_eq [OF assms(2) n, of dh]
    by (simp add: apply_timedelta_to_Orgmode_timestamp_def g(1) pg)
qed

lemma parse_brackets:
  assumes "ts_ok p" "ob \<in> set ''<[''" "cb \<in> set ''>]''" "newline_or_end nl"
  shows "orgmode_timestamp_to_datetime (ts_text (p\<lparr>p_open := ob, p_close := cb\<rparr>) @ nl) =
         orgmode_timestamp_to_datetime (ts_text p @ nl)"
  using parse_ts [OF ts_ok_brackets [OF assms(1-3)] assms(4)] parse_ts [OF assms(1,4)]
  by simp


section \<open>Applying an hour delta to a time-stamp text\<close>

text \<open>
  Claim C1 as stated fails: not every accepted input and every delta gives a rendered
  result. The result of the addition must be a date of the years 1 to 9999; beyond that
  \<open>datetime + timedelta\<close> raises OverflowError, which the function lets through.
\<close>

theorem apply_timedelta_counterexample:
  "apply_timedelta_to_Orgmode_timestamp ''<2999-12-31 Tue 23:59>'' (PyInt 100000000)
   = Inl OverflowError"
  by code_simp

text \<open>
  Claim C1, amended. Let \<open>p\<close> and \<open>q\<close> be the parts of two well-formed time-stamp texts
  (active or inactive, any accepted weekday token).

  \<^item> If the text of \<open>p\<close> parses to a datetime \<open>dt\<close> (its digits form a valid date and
    time), the delta is one that \<open>timedelta\<close> turns into \<open>us\<close> microseconds, and
    \<open>dt\<close> plus \<open>us\<close> lies within the years 1 to 9999, then the function returns
    \<open><YYYY-MM-DD Www HH:MM>\<close> for the valid date \<open>y-m-d\<close> and the time \<open>hh:mm\<close>
    that are the minute containing \<open>dt\<close> plus \<open>us\<close>, counted in minutes from day
    number 0, with the weekday of that date.
  \<^item> Under the same conditions, but with \<open>dt\<close> plus \<open>us\<close> outside the years 1 to 9999,
    the function raises OverflowError.
  \<^item> The brackets of the input do not matter: the same text with other brackets gives
    the same result, which is in active form.
  \<^item> A range (one or two dashes) gives the results of its two endpoints joined by
    \<open>--\<close>, or the first exception that one of them raises.
  \<^item> An integer number of hours is exactly that many times 3600000000 microseconds.
  \<^item> The year of the result is printed with four digits from the year 1000 on.
  \<^item> The example of the docstring holds.
\<close>

theorem apply_timedelta_shifts_and_renders:
  assumes "ts_ok p" and "ts_ok q" and "dash_ok sep" and "newline_or_end nl"
  shows "(\<forall>dt us. orgmode_timestamp_to_datetime (ts_text p @ nl) = Inr dt \<longrightarrow>
            hours_to_microseconds dh = Inr us \<longrightarrow>
            86400000000 \<le> instant_us dt + us \<longrightarrow>
            instant_us dt + us < 3652060 * 86400000000 \<longrightarrow>
            (\<exists>y m d hh mm.
               valid_date_fields y m d \<and> 0 \<le> hh \<and> hh \<le> 23 \<and> 0 \<le> mm \<and> mm \<le> 59 \<and>
               ymd2ord y m d * 1440 + hh * 60 + mm = (instant_us dt + us) div 60000000 \<and>
               apply_timedelta_to_Orgmode_timestamp (ts_text p @ nl) dh
                 = Inr (org_datetime_text y m d hh mm)))
       \<and> (\<forall>dt us. orgmode_timestamp_to_datetime (ts_text p @ nl) = Inr dt \<longrightarrow>
            hours_to_microseconds dh = Inr us \<longrightarrow>
            \<not> (86400000000 \<le> instant_us dt + us \<and>
               instant_us dt + us < 3652060 * 86400000000) \<longrightarrow>
            apply_timedelta_to_Orgmode_timestamp (ts_text p @ nl) dh = Inl OverflowError)
       \<and> (\<forall>ob \<in> set ''<[''. \<forall>cb \<in> set ''>]''.
            apply_timedelta_to_Orgmode_timestamp
                (ts_text (p\<lparr>p_open := ob, p_close := cb\<rparr>) @ nl) dh
              = apply_timedelta_to_Orgmode_timestamp (ts_text p @ nl) dh)
       \<and> apply_timedelta_to_Orgmode_timestamp (ts_text p @ sep @ ts_text q @ nl) dh
            = bind_exn (apply_timedelta_to_Orgmode_timestamp (ts_text p) dh) (\<lambda>a.
              bind_exn (apply_timedelta_to_Orgmode_timestamp (ts_text q) dh) (\<lambda>b.
                Inr (a @ ''--'' @ b)))
       \<and> hours_to_microseconds (PyInt h) = Inr (h * 3600000000)
       \<and> (1000 \<le> y' \<and> y' \<le> 9999 \<longrightarrow> length (fmt_Y y') = 4)
       \<and> apply_timedelta_to_Orgmode_timestamp
            ''<2020-01-01 Wed 01:30>--<2020-01-01 Wed 02:00>'' (PyFloat (Finite (- 5) (- 1)))
            = Inr ''<2019-12-31 Tue 23:00>--<2019-12-31 Tue 23:30>''"
proof (intro conjI allI impI ballI)
  fix dt us
  assume parse: "orgmode_timestamp_to_datetime (ts_text p @ nl) = Inr dt"
    and h: "hours_to_microseconds dh = Inr us"
    and r: "86400000000 \<le> instant_us dt + us" "instant_us dt + us < 3652060 * 86400000000"
  from parse parse_ts [OF assms(1,4)] datetime_new_Inr
  have v: "valid_datetime dt" "dt_microsecond dt = 0" by metis+
  from shift_and_render_result [OF v h] r
  show "\<exists>y m d hh mm.
               valid_date_fields y m d \<and> 0 \<le> hh \<and> hh \<le> 23 \<and> 0 \<le> mm \<and> mm \<le> 59 \<and>
               ymd2ord y m d * 1440 + hh * 60 + mm = (instant_us dt + us) div 60000000 \<and>
               apply_timedelta_to_Orgmode_timestamp (ts_text p @ nl) dh
                 = Inr (org_datetime_text y m d hh mm)"
    by (simp add: apply_single_eq [OF assms(1,4)] parse)
next
  fix dt us
  assume parse: "orgmode_timestamp_to_datetime (ts_text p @ nl) = Inr dt"
    and h: "hours_to_microseconds dh = Inr us"
    and r: "\<not> (86400000000 \<le> instant_us dt + us \<and>
               instant_us dt + us < 3652060 * 86400000000)"
  from parse parse_ts [OF assms(1,4)] datetime_new_Inr
  have v: "valid_datetime dt" "dt_microsecond dt = 0" by metis+
  from shift_and_render_result [OF v h] r
  show "apply_timedelta_to_Orgmode_timestamp (ts_text p @ nl) dh = Inl OverflowError"
    by (simp add: apply_single_eq [OF assms(1,4)] parse)
next
  fix ob cb
  assume b: "ob \<in> set ''<[''" "cb \<in> set ''>]''"
  show "apply_timedelta_to_Orgmode_timestamp
                (ts_text (p\<lparr>p_open := ob, p_close := cb\<rparr>) @ nl) dh
              = apply_timedelta_to_Orgmode_timestamp (ts_text p @ nl) dh"
    by (simp only: apply_single_eq [OF ts_ok_brackets [OF assms(1) b] assms(4)]
          apply_single_eq [OF assms(1,4)] parse_brackets [OF assms(1) b assms(4)])
next
  show "apply_timedelta_to_Orgmode_timestamp (ts_text p @ sep @ ts_text q @ nl) dh
            = bind_exn (apply_timedelta_to_Orgmode_timestamp (ts_text p) dh) (\<lambda>a.
              bind_exn (apply_timedelta_to_Orgmode_timestamp (ts_text q) dh) (\<lambda>b.
                Inr (a @ ''--'' @ b)))"
    by (rule apply_range_eq [OF assms])
next
  show "hours_to_microseconds (PyInt h) = Inr (h * 3600000000)"
    by (simp add: hours_to_microseconds_def us_per_hour_def)
next
  assume "1000 \<le> y' \<and> y' \<le> 9999"
  then show "length (fmt_Y y') = 4" by (simp add: fmt_Y_length)
next
  show "apply_timedelta_to_Orgmode_timestamp
            ''<2020-01-01 Wed 01:30>--<2020-01-01 Wed 02:00>'' (PyFloat (Finite (- 5) (- 1)))
            = Inr ''<2019-12-31 Tue 23:00>--<2019-12-31 Tue 23:30>''"
    by code_simp
qed

theorem apply_timedelta_shifts_and_renders_witness:
  "ts_ok (
     \<lparr>p_open = CHR ''<'', p_year = ''2019'', p_month = ''11'', p_day = ''05'',
      p_wday = ''Tue'', p_hour = ''23'', p_minute = ''59'', p_close = CHR ''>''\<rparr>) \<and> dash_ok ''--'' \<and> newline_or_end [] \<and>
   orgmode_timestamp_to_datetime ''<2019-11-05 Tue 23:59>'' = Inr (
     \<lparr>dt_year = 2019, dt_month = 11, dt_day = 5, dt_hour = 23, dt_minute = 59,
      dt_second = 0, dt_microsecond = 0\<rparr>) \<and>
   hours_to_microseconds (PyInt 1) = Inr 3600000000 \<and>
   86400000000 \<le> instant_us (
     \<lparr>dt_year = 2019, dt_month = 11, dt_day = 5, dt_hour = 23, dt_minute = 59,
      dt_second = 0, dt_microsecond = 0\<rparr>) + 3600000000 \<and>
   instant_us (
     \<lparr>dt_year = 2019, dt_month = 11, dt_day = 5, dt_hour = 23, dt_minute = 59,
      dt_second = 0, dt_microsecond = 0\<rparr>) + 3600000000 < 3652060 * 86400000000 \<and>
   (\<exists>y m d hh mm.
      valid_date_fields y m d \<and> 0 \<le> hh \<and> hh \<le> 23 \<and> 0 \<le> mm \<and> mm \<le> 59 \<and>
      ymd2ord y m d * 1440 + hh * 60 + mm = (instant_us (
     \<lparr>dt_year = 2019, dt_month = 11, dt_day = 5, dt_hour = 23, dt_minute = 59,
      dt_second = 0, dt_microsecond = 0\<rparr>) + 3600000000) div 60000000 \<and>
      apply_timedelta_to_Orgmode_timestamp ''<2019-11-05 Tue 23:59>'' (PyInt 1)
        = Inr (org_datetime_text y m d hh mm)) \<and>
   apply_timedelta_to_Orgmode_timestamp ''<2019-11-05 Tue 23:59>'' (PyInt 1)
     = Inr ''<2019-11-06 Wed 00:59>''"
proof -
  have ok: "ts_ok (
     \<lparr>p_open = CHR ''<'', p_year = ''2019'', p_month = ''11'', p_day = ''05'',
      p_wday = ''Tue'', p_hour = ''23'', p_minute = ''59'', p_close = CHR ''>''\<rparr>)" "dash_ok ''--''" "newline_or_end []"
    by (simp_all add: ts_eval)
  have t: "ts_text (
     \<lparr>p_open = CHR ''<'', p_year = ''2019'', p_month = ''11'', p_day = ''05'',
      p_wday = ''Tue'', p_hour = ''23'', p_minute = ''59'', p_close = CHR ''>''\<rparr>) @ [] = ''<2019-11-05 Tue 23:59>''"
    by (simp add: ts_eval)
  have parse: "orgmode_timestamp_to_datetime ''<2019-11-05 Tue 23:59>'' = Inr (
     \<lparr>dt_year = 2019, dt_month = 11, dt_day = 5, dt_hour = 23, dt_minute = 59,
      dt_second = 0, dt_microsecond = 0\<rparr>)"
    by code_simp
  have h: "hours_to_microseconds (PyInt 1) = Inr 3600000000"
    by (simp add: hours_to_microseconds_def us_per_hour_def)
  have r: "86400000000 \<le> instant_us (
     \<lparr>dt_year = 2019, dt_month = 11, dt_day = 5, dt_hour = 23, dt_minute = 59,
      dt_second = 0, dt_microsecond = 0\<rparr>) + 3600000000"
    "instant_us (
     \<lparr>dt_year = 2019, dt_month = 11, dt_day = 5, dt_hour = 23, dt_minute = 59,
      dt_second = 0, dt_microsecond = 0\<rparr>) + 3600000000 < 3652060 * 86400000000"
    by (simp_all add: instant_us_def cal_eval)
  have e: "apply_timedelta_to_Orgmode_timestamp ''<2019-11-05 Tue 23:59>'' (PyInt 1)
     = Inr ''<2019-11-06 Wed 00:59>''"
    by code_simp
  from apply_timedelta_shifts_and_renders [OF ok(1) ok(1) ok(2) ok(3), of "PyInt 1"]
  have "\<forall>dt us. orgmode_timestamp_to_datetime (ts_text (
     \<lparr>p_open = CHR ''<'', p_year = ''2019'', p_month = ''11'', p_day = ''05'',
      p_wday = ''Tue'', p_hour = ''23'', p_minute = ''59'', p_close = CHR ''>''\<rparr>) @ []) = Inr dt \<longrightarrow>
            hours_to_microseconds (PyInt 1) = Inr us \<longrightarrow>
            86400000000 \<le> instant_us dt + us \<longrightarrow>
            instant_us dt + us < 3652060 * 86400000000 \<longrightarrow>
            (\<exists>y m d hh mm.
               valid_date_fields y m d \<and> 0 \<le> hh \<and> hh \<le> 23 \<and> 0 \<le> mm \<and> mm \<le> 59 \<and>
               ymd2ord y m d * 1440 + hh * 60 + mm = (instant_us dt + us) div 60000000 \<and>
               apply_timedelta_to_Orgmode_timestamp (ts_text (
     \<lparr>p_open = CHR ''<'', p_year = ''2019'', p_month = ''11'', p_day = ''05'',
      p_wday = ''Tue'', p_hour = ''23'', p_minute = ''59'', p_close = CHR ''>''\<rparr>) @ []) (PyInt 1)
                 = Inr (org_datetime_text y m d hh mm))"
    by blast
  with parse h r have "\<exists>y m d hh mm.
      valid_date_fields y m d \<and> 0 \<le> hh \<and> hh \<le> 23 \<and> 0 \<le> mm \<and> mm \<le> 59 \<and>
      ymd2ord y m d * 1440 + hh * 60 + mm = (instant_us (
     \<lparr>dt_year = 2019, dt_month = 11, dt_day = 5, dt_hour = 23, dt_minute = 59,
      dt_second = 0, dt_microsecond = 0\<rparr>) + 3600000000) div 60000000 \<and>
      apply_timedelta_to_Orgmode_timestamp ''<2019-11-05 Tue 23:59>'' (PyInt 1)
        = Inr (org_datetime_text y m d hh mm)"
    unfolding t by blast
  with ok parse h r e show ?thesis by blast
qed

section \<open>The weekday is recomputed before rendering\<close>

text \<open>
  Claim C3. \<open>date\<close> and \<open>inactive_date\<close>, given a struct_time, render the weekday
  abbreviation of the weekday computed from (year, month, day): for fields that form a
  valid date and time the result is the string below, whose weekday token is
  \<open>day_name (weekday year month day)\<close>; and for every struct_time whatsoever the
  result does not depend on the \<open>tm_wday\<close> that was supplied.
\<close>

theorem date_weekday_recomputed:
  "(valid_fields t \<longrightarrow>
      date (StructTime t) show_time inactive =
        Inr ((if inactive then ''['' else ''<'')
             @ fmt_Y (tm_year t) @ ''-'' @ fmt_2d (tm_mon t) @ ''-'' @ fmt_2d (tm_mday t)
             @ '' '' @ day_name (weekday (tm_year t) (tm_mon t) (tm_mday t))
             @ (if show_time then '' '' @ time_text (tm_hour t) (tm_min t) else [])
             @ (if inactive then '']'' else ''>''))
      \<and> inactive_date (StructTime t) show_time =
        Inr (''[''
             @ fmt_Y (tm_year t) @ ''-'' @ fmt_2d (tm_mon t) @ ''-'' @ fmt_2d (tm_mday t)
             @ '' '' @ day_name (weekday (tm_year t) (tm_mon t) (tm_mday t))
             @ (if show_time then '' '' @ time_text (tm_hour t) (tm_min t) else [])
             @ '']''))
   \<and> date (StructTime (t\<lparr>tm_wday := w\<rparr>)) show_time inactive
       = date (StructTime t) show_time inactive
   \<and> inactive_date (StructTime (t\<lparr>tm_wday := w\<rparr>)) show_time
       = inactive_date (StructTime t) show_time"
proof -
  have b: "fix_struct_time_wday (t\<lparr>tm_wday := w\<rparr>) = fix_struct_time_wday t"
    by (simp add: fix_struct_time_wday_def struct_time_to_datetime_def)
  show ?thesis
    using date_struct_time_valid [of t show_time inactive]
      inactive_date_struct_time_valid [of t show_time]
    by (simp add: b date_def inactive_date_def local_structtime_def date_text_def)
qed

text \<open>The example of the source's comment: 3 April 2013 with the weekday field 0
  (Monday) is rendered as a Wednesday.\<close>

theorem date_weekday_recomputed_witness:
  "date (StructTime (
     \<lparr>tm_year = 2013, tm_mon = 4, tm_mday = 3, tm_hour = 10, tm_min = 54, tm_sec = 0,
      tm_wday = 0, tm_yday = 0, tm_isdst = 0\<rparr>)) True False = Inr ''<2013-04-03 Wed 10:54>''
   \<and> inactive_date (StructTime (
     \<lparr>tm_year = 2013, tm_mon = 4, tm_mday = 3, tm_hour = 10, tm_min = 54, tm_sec = 0,
      tm_wday = 0, tm_yday = 0, tm_isdst = 0\<rparr>)) False = Inr ''[2013-04-03 Wed]''"
  using date_weekday_recomputed [of "
     \<lparr>tm_year = 2013, tm_mon = 4, tm_mday = 3, tm_hour = 10, tm_min = 54, tm_sec = 0,
      tm_wday = 0, tm_yday = 0, tm_isdst = 0\<rparr>" True False]
    date_weekday_recomputed [of "
     \<lparr>tm_year = 2013, tm_mon = 4, tm_mday = 3, tm_hour = 10, tm_min = 54, tm_sec = 0,
      tm_wday = 0, tm_yday = 0, tm_isdst = 0\<rparr>" False False]
  by (simp add: cal_eval fmt_eval)

section \<open>\<open>utcrange\<close>\<close>

text \<open>
  Claim C4. For two struct_time endpoints with valid fields, \<open>utcrange\<close> renders the
  date-only range exactly when both endpoints have hour, minute and second zero, and
  the range with \<open>HH:MM\<close> on both endpoints exactly when they do not; an endpoint at
  midnight then shows \<open>00:00\<close>.
\<close>

theorem utcrange_date_only_iff_midnight:
  assumes "valid_fields b" and "valid_fields e"
  shows "(utcrange b e =
            Inr (''<'' @ date_text (tm_year b) (tm_mon b) (tm_mday b) @ ''>'' @ ''--'' @
                 ''<'' @ date_text (tm_year e) (tm_mon e) (tm_mday e) @ ''>''))
           = (midnight b \<and> midnight e)
       \<and> (utcrange b e =
            Inr (''<'' @ date_text (tm_year b) (tm_mon b) (tm_mday b) @ '' ''
                       @ time_text (tm_hour b) (tm_min b) @ ''>'' @ ''--'' @
                 ''<'' @ date_text (tm_year e) (tm_mon e) (tm_mday e) @ '' ''
                       @ time_text (tm_hour e) (tm_min e) @ ''>''))
           = (\<not> (midnight b \<and> midnight e))
       \<and> (midnight b \<longrightarrow> time_text (tm_hour b) (tm_min b) = ''00:00'')
       \<and> (midnight e \<longrightarrow> time_text (tm_hour e) (tm_min e) = ''00:00'')"
  by (auto simp add: utcrange_def daterange_def datetimerange_def join_range_def
        date_struct_time_valid [OF assms(1)] date_struct_time_valid [OF assms(2)] midnight_def
        time_text_def fmt_2d_def digit_chr_def)

text \<open>A midnight begin with a non-midnight end: both endpoints show the time.\<close>

theorem utcrange_date_only_iff_midnight_witness:
  "valid_fields (
     \<lparr>tm_year = 2011, tm_mon = 11, tm_mday = 29, tm_hour = 0, tm_min = 0, tm_sec = 0,
      tm_wday = 1, tm_yday = 333, tm_isdst = - 1\<rparr>) \<and> valid_fields (
     \<lparr>tm_year = 2011, tm_mon = 11, tm_mday = 30, tm_hour = 23, tm_min = 59, tm_sec = 58,
      tm_wday = 2, tm_yday = 334, tm_isdst = - 1\<rparr>) \<and> midnight (
     \<lparr>tm_year = 2011, tm_mon = 11, tm_mday = 29, tm_hour = 0, tm_min = 0, tm_sec = 0,
      tm_wday = 1, tm_yday = 333, tm_isdst = - 1\<rparr>) \<and> \<not> midnight (
     \<lparr>tm_year = 2011, tm_mon = 11, tm_mday = 30, tm_hour = 23, tm_min = 59, tm_sec = 58,
      tm_wday = 2, tm_yday = 334, tm_isdst = - 1\<rparr>) \<and>
   utcrange (
     \<lparr>tm_year = 2011, tm_mon = 11, tm_mday = 29, tm_hour = 0, tm_min = 0, tm_sec = 0,
      tm_wday = 1, tm_yday = 333, tm_isdst = - 1\<rparr>) (
     \<lparr>tm_year = 2011, tm_mon = 11, tm_mday = 30, tm_hour = 23, tm_min = 59, tm_sec = 58,
      tm_wday = 2, tm_yday = 334, tm_isdst = - 1\<rparr>) = Inr ''<2011-11-29 Tue 00:00>--<2011-11-30 Wed 23:59>''"
  using utcrange_date_only_iff_midnight [of "
     \<lparr>tm_year = 2011, tm_mon = 11, tm_mday = 29, tm_hour = 0, tm_min = 0, tm_sec = 0,
      tm_wday = 1, tm_yday = 333, tm_isdst = - 1\<rparr>" "
     \<lparr>tm_year = 2011, tm_mon = 11, tm_mday = 30, tm_hour = 23, tm_min = 59, tm_sec = 58,
      tm_wday = 2, tm_yday = 334, tm_isdst = - 1\<rparr>"]
  by (simp add: cal_eval fmt_eval midnight_def)

section \<open>\<open>fix_struct_time_wday\<close>\<close>

text \<open>
  Claim C9 as stated fails: the function writes the constant 0 into the year-day and the
  DST flag, so these two fields are not kept.
\<close>

theorem fix_struct_time_wday_frame_counterexample:
  "fix_struct_time_wday
     \<lparr>tm_year = 2013, tm_mon = 4, tm_mday = 3, tm_hour = 10, tm_min = 54, tm_sec = 0,
      tm_wday = 0, tm_yday = 93, tm_isdst = 1\<rparr>
   = Inr \<lparr>tm_year = 2013, tm_mon = 4, tm_mday = 3, tm_hour = 10, tm_min = 54, tm_sec = 0,
          tm_wday = 2, tm_yday = 0, tm_isdst = 0\<rparr>"
  by (simp add: fix_struct_time_wday_def struct_time_to_datetime_def datetime_new_def
        fits_c_int_def cal_eval)

text \<open>
  Claim C9, amended. For a struct_time whose six date and time fields are valid,
  \<open>fix_struct_time_wday\<close> returns a copy in which year, month, day, hour, minute and
  second are unchanged, the weekday is the one computed from (year, month, day), and the
  year-day and the DST flag are both 0. For any other struct_time it raises ValueError
  or OverflowError.
\<close>

theorem fix_struct_time_wday_frame:
  "(valid_fields t \<longrightarrow>
      fix_struct_time_wday t =
        Inr (t\<lparr>tm_wday := weekday (tm_year t) (tm_mon t) (tm_mday t),
               tm_yday := 0, tm_isdst := 0\<rparr>))
   \<and> (\<not> valid_fields t \<longrightarrow>
        fix_struct_time_wday t \<in> {Inl ValueError, Inl OverflowError})"
  using fix_struct_time_wday_valid [of t] fix_struct_time_wday_invalid [of t]
  by (auto simp: fixed_wday_def)

theorem fix_struct_time_wday_frame_witness:
  "valid_fields (
     \<lparr>tm_year = 2013, tm_mon = 4, tm_mday = 3, tm_hour = 10, tm_min = 54, tm_sec = 0,
      tm_wday = 0, tm_yday = 0, tm_isdst = 0\<rparr>) \<and>
   fix_struct_time_wday (
     \<lparr>tm_year = 2013, tm_mon = 4, tm_mday = 3, tm_hour = 10, tm_min = 54, tm_sec = 0,
      tm_wday = 0, tm_yday = 0, tm_isdst = 0\<rparr>)
   = Inr \<lparr>tm_year = 2013, tm_mon = 4, tm_mday = 3, tm_hour = 10, tm_min = 54, tm_sec = 0,
          tm_wday = 2, tm_yday = 0, tm_isdst = 0\<rparr>"
  using fix_struct_time_wday_frame [of "
     \<lparr>tm_year = 2013, tm_mon = 4, tm_mday = 3, tm_hour = 10, tm_min = 54, tm_sec = 0,
      tm_wday = 0, tm_yday = 0, tm_isdst = 0\<rparr>"]
  by (simp add: cal_eval)

section \<open>\<open>OrgFormat.datetime\<close> ignores \<open>inactive\<close>\<close>

text \<open>
  Claim C10. \<open>datetime t True\<close> and \<open>datetime t False\<close> are the same result for every
  argument, and whenever \<open>datetime\<close> returns a string it is an active date+time
  timestamp: \<open><\<close>, the date part, a space, \<open>HH:MM\<close>, \<open>>\<close>.
\<close>

theorem datetime_inactive_ignored:
  "datetime t True = datetime t False
   \<and> (\<forall>s. datetime t inactive = Inr s \<longrightarrow>
         (\<exists>tm. s = ''<'' @ fmt_date_part tm @ '' '' @ fmt_time_part tm @ ''>''))"
  by (auto simp: datetime_def date_def strftime_org_def split: sum.splits if_splits)

theorem datetime_inactive_ignored_witness:
  "datetime (StructTime (
     \<lparr>tm_year = 2013, tm_mon = 4, tm_mday = 3, tm_hour = 10, tm_min = 54, tm_sec = 0,
      tm_wday = 0, tm_yday = 0, tm_isdst = 0\<rparr>)) True = datetime (StructTime (
     \<lparr>tm_year = 2013, tm_mon = 4, tm_mday = 3, tm_hour = 10, tm_min = 54, tm_sec = 0,
      tm_wday = 0, tm_yday = 0, tm_isdst = 0\<rparr>)) False
   \<and> datetime (StructTime (
     \<lparr>tm_year = 2013, tm_mon = 4, tm_mday = 3, tm_hour = 10, tm_min = 54, tm_sec = 0,
      tm_wday = 0, tm_yday = 0, tm_isdst = 0\<rparr>)) True = Inr ''<2013-04-03 Wed 10:54>''"
proof -
  have "datetime (StructTime (
     \<lparr>tm_year = 2013, tm_mon = 4, tm_mday = 3, tm_hour = 10, tm_min = 54, tm_sec = 0,
      tm_wday = 0, tm_yday = 0, tm_isdst = 0\<rparr>)) False = Inr ''<2013-04-03 Wed 10:54>''"
    using date_struct_time_valid [of "
     \<lparr>tm_year = 2013, tm_mon = 4, tm_mday = 3, tm_hour = 10, tm_min = 54, tm_sec = 0,
      tm_wday = 0, tm_yday = 0, tm_isdst = 0\<rparr>" True False]
    by (simp add: datetime_def cal_eval fmt_eval)
  with datetime_inactive_ignored [of "StructTime (
     \<lparr>tm_year = 2013, tm_mon = 4, tm_mday = 3, tm_hour = 10, tm_min = 54, tm_sec = 0,
      tm_wday = 0, tm_yday = 0, tm_isdst = 0\<rparr>)"] show ?thesis by simp
qed


end
